theory Spec2Isabelle
  imports Main "HOL-Library.List_Lexorder" "HOL-Library.Char_ord"
begin

section \<open>Common types\<close>

text \<open>
  ObjectIds and instants are natural numbers (an instant is a count of milliseconds).
  JavaScript numbers are modelled as exact integers: rounding of binary floating point
  is outside the model. The clock is an argument of every operation that reads
  \<^verbatim>\<open>new Date()\<close>.
\<close>

type_synonym objectId = nat
type_synonym timestamp = nat

record clock =
  now :: timestamp
  fullYear :: nat

text \<open>
  Every \<^verbatim>\<open>throw new Error(...)\<close> of the modelled code has a constructor; a Mongoose
  validation failure carries the failing paths, a violated unique index is
  \<open>DuplicateKeyError\<close> (code 11000, which \<^verbatim>\<open>errorHandler\<close> answers with 409);
  \<open>TypeError\<close> is the one that JavaScript throws for a method call on null.
\<close>

datatype error =
    InvoiceAlreadyPaid
  | CannotPayCancelledInvoice
  | CannotCancelInvoiceWithPayments
  | ValidationError "string list"
  | DuplicateKeyError
  | DocumentNotFoundError
  | ClassNotFound
  | TargetClassNotFound
  | AcademicYearMismatch string string
  | StudentsNotEnrolled "objectId list"
  | AttendanceRecordNotFound
  | Unauthorized
  | TypeError

section \<open>Financial ledger: \<^verbatim>\<open>models/Payment.js\<close>\<close>

text \<open>
  A payment document. A field that a JavaScript object may leave undefined is an option.
  The setters \<^verbatim>\<open>trim\<close> and \<^verbatim>\<open>uppercase\<close> and the \<^verbatim>\<open>currency\<close> field are not modelled.
\<close>

record payment =
  pay_invoiceId :: "objectId option"
  pay_studentId :: "objectId option"
  paymentNumber :: "string option"
  pay_amount :: "int option"
  paymentMethod :: "string option"
  reference :: "string option"
  paymentDate :: "timestamp option"
  recordedBy :: "objectId option"
  pay_status :: "string option"
  pay_notes :: "string option"

definition paymentMethods :: "string list" where
  "paymentMethods =
     [''cash'', ''bank_transfer'', ''credit_card'', ''debit_card'', ''mobile_money'', ''check'']"

definition paymentStatuses :: "string list" where
  "paymentStatuses = [''successful'', ''pending'', ''failed'', ''refunded'']"

text \<open>Schema defaults: \<^verbatim>\<open>paymentDate: Date.now\<close>, \<^verbatim>\<open>status: 'successful'\<close>.\<close>

definition payment_defaults :: "clock \<Rightarrow> payment \<Rightarrow> payment" where
  "payment_defaults c p =
     p\<lparr>paymentDate := (case paymentDate p of None \<Rightarrow> Some (now c) | Some d \<Rightarrow> Some d),
       pay_status := (case pay_status p of None \<Rightarrow> Some ''successful'' | Some s \<Rightarrow> Some s)\<rparr>"

text \<open>
  Schema validation: the paths marked \<^verbatim>\<open>required: true\<close> must be present and the
  \<^verbatim>\<open>enum\<close> paths must hold one of the listed strings. The result is the list of failing
  paths.
\<close>

definition payment_invalid_paths :: "payment \<Rightarrow> string list" where
  "payment_invalid_paths p =
     (if pay_invoiceId p = None then [''invoiceId''] else []) @
     (if pay_studentId p = None then [''studentId''] else []) @
     (if paymentNumber p = None then [''paymentNumber''] else []) @
     (if pay_amount p = None then [''amount''] else []) @
     (case paymentMethod p of None \<Rightarrow> [''paymentMethod'']
        | Some m \<Rightarrow> if m \<in> set paymentMethods then [] else [''paymentMethod'']) @
     (if paymentDate p = None then [''paymentDate''] else []) @
     (if recordedBy p = None then [''recordedBy''] else []) @
     (case pay_status p of None \<Rightarrow> []
        | Some s \<Rightarrow> if s \<in> set paymentStatuses then [] else [''status''])"

subsection \<open>String helpers of \<^verbatim>\<open>generatePaymentNumber\<close>\<close>

definition digit_char :: "nat \<Rightarrow> char" where
  "digit_char n = ''0123456789'' ! n"

text \<open>\<^verbatim>\<open>String(n)\<close> for a natural number: its decimal digits.\<close>

function String_of_nat :: "nat \<Rightarrow> string" where
  "String_of_nat n =
     (if n < 10 then [digit_char n]
      else String_of_nat (n div 10) @ [digit_char (n mod 10)])"
  by pat_completeness auto
termination
  by (relation "measure id") auto

declare String_of_nat.simps [simp del]

text \<open>\<^verbatim>\<open>s.padStart(n, '0')\<close>.\<close>

definition padStart :: "nat \<Rightarrow> string \<Rightarrow> string" where
  "padStart n s = replicate (n - length s) CHR ''0'' @ s"

text \<open>\<^verbatim>\<open>s.split(c)\<close> for a one-character separator.\<close>

fun split :: "char \<Rightarrow> string \<Rightarrow> string list" where
  "split c [] = [[]]"
| "split c (x # xs) =
     (if x = c then [] # split c xs
      else (case split c xs of [] \<Rightarrow> [[x]] | y # ys \<Rightarrow> (x # y) # ys))"

definition is_space :: "char \<Rightarrow> bool" where
  "is_space c = (c \<in> set [CHR '' '', CHR 0x09, CHR 0x0A, CHR 0x0B, CHR 0x0C, CHR 0x0D])"

definition is_digit :: "char \<Rightarrow> bool" where
  "is_digit c = (c \<in> set ''0123456789'')"

definition digit_val :: "char \<Rightarrow> nat" where
  "digit_val c = of_char c - 48"

definition is_hexdigit :: "char \<Rightarrow> bool" where
  "is_hexdigit c = (c \<in> set ''0123456789abcdefABCDEF'')"

definition hexdigit_val :: "char \<Rightarrow> nat" where
  "hexdigit_val c =
     (if is_digit c then of_char c - 48
      else if c \<in> set ''abcdef'' then of_char c - 87
      else of_char c - 55)"

text \<open>
  \<^verbatim>\<open>parseInt(s)\<close> with no radix, on an ASCII string without a minus sign (a part of a
  string split at \<^verbatim>\<open>-\<close> has none): leading white space and one \<^verbatim>\<open>+\<close> are skipped, a
  \<^verbatim>\<open>0x\<close> prefix selects base 16, and the longest run of digits is read. \<open>None\<close> is NaN.
\<close>

definition parseInt :: "string \<Rightarrow> nat option" where
  "parseInt s =
     (let t = dropWhile is_space s;
          u = (case t of [] \<Rightarrow> t | x # r \<Rightarrow> if x = CHR ''+'' then r else t)
      in if take 2 u = ''0x'' \<or> take 2 u = ''0X''
         then (let ds = takeWhile is_hexdigit (drop 2 u)
               in if ds = [] then None
                  else Some (foldl (\<lambda>a d. 16 * a + hexdigit_val d) 0 ds))
         else (let ds = takeWhile is_digit u
               in if ds = [] then None
                  else Some (foldl (\<lambda>a d. 10 * a + digit_val d) 0 ds)))"

text \<open>\<^verbatim>\<open>new RegExp(`^${prefix}`)\<close> on a prefix without special characters.\<close>

definition startsWith :: "string \<Rightarrow> string \<Rightarrow> bool" where
  "startsWith p s = (take (length p) s = p)"

subsection \<open>\<^verbatim>\<open>paymentSchema.statics.generatePaymentNumber\<close>\<close>

definition payment_prefix :: "nat \<Rightarrow> string" where
  "payment_prefix year = ''PAY-'' @ String_of_nat year @ ''-''"

text \<open>
  \<^verbatim>\<open>findOne({paymentNumber: /^prefix/}).sort('-paymentNumber')\<close>: among all stored
  payments whose number starts with the prefix, the one whose number is greatest in the
  order of strings. The query has no other condition.
\<close>

definition findLastPayment :: "string \<Rightarrow> payment list \<Rightarrow> string option" where
  "findLastPayment prefix ps =
     (case filter (startsWith prefix) (List.map_filter paymentNumber ps) of
        [] \<Rightarrow> None
      | n # ns \<Rightarrow> Some (fold (\<lambda>m best. if best < m then m else best) ns n))"

definition nextNumber :: "string option \<Rightarrow> nat option" where
  "nextNumber lastPayment =
     (case lastPayment of
        None \<Rightarrow> Some 1
      | Some num \<Rightarrow>
          (let parts = split CHR ''-'' num
           in if length parts \<le> 2 then None
              else (case parseInt (parts ! 2) of
                      None \<Rightarrow> None
                    | Some lastNumber \<Rightarrow> Some (lastNumber + 1))))"

definition generatePaymentNumber :: "clock \<Rightarrow> payment list \<Rightarrow> string" where
  "generatePaymentNumber c ps =
     (let prefix = payment_prefix (fullYear c)
      in prefix @ padStart 5
           (case nextNumber (findLastPayment prefix ps) of
              None \<Rightarrow> ''NaN''
            | Some n \<Rightarrow> String_of_nat n))"

subsection \<open>\<^verbatim>\<open>Payment.create\<close>\<close>

text \<open>
  \<^verbatim>\<open>Model.create(obj)\<close> builds the document with the schema defaults and saves it.
  Saving validates first (Mongoose runs validation ahead of the \<^verbatim>\<open>pre('save')\<close> hooks of
  the schema), then runs the hook that fills a missing payment number, then inserts; the
  index \<^verbatim>\<open>paymentNumber: unique\<close> rejects a number that is already stored.
\<close>

definition Payment_create :: "clock \<Rightarrow> payment \<Rightarrow> payment list \<Rightarrow> error + payment \<times> payment list" where
  "Payment_create c obj ps =
     (let doc = payment_defaults c obj in
      case payment_invalid_paths doc of
        x # xs \<Rightarrow> Inl (ValidationError (x # xs))
      | [] \<Rightarrow>
          (let doc' = (if paymentNumber doc = None
                       then doc\<lparr>paymentNumber := Some (generatePaymentNumber c ps)\<rparr>
                       else doc)
           in if paymentNumber doc' \<in> set (map paymentNumber ps)
              then Inl DuplicateKeyError
              else Inr (doc', ps @ [doc'])))"

section \<open>Financial ledger: \<^verbatim>\<open>models/Invoice.js\<close>\<close>

datatype invoice_status = Unpaid | PartiallyPaid | Paid | Overdue | Cancelled

record invoice =
  inv_id :: objectId
  inv_studentId :: objectId
  inv_schoolId :: objectId
  inv_amount :: int
  inv_status :: invoice_status
  amountPaid :: int
  balance :: int
  dueDate :: timestamp
  paidDate :: "timestamp option"

text \<open>
  The state of one invoice: the document in memory on which the instance methods work
  (\<^verbatim>\<open>this\<close>), the copy of it in the collection (absent until the first save), and the
  payments collection. One handle is modelled, with no concurrent writer, so a save
  that writes the modified paths writes the whole document.
\<close>

record fin_state =
  doc :: invoice
  stored :: "invoice option"
  payments :: "payment list"

text \<open>The validators \<^verbatim>\<open>min: 0\<close> of \<^verbatim>\<open>amount\<close> and \<^verbatim>\<open>amountPaid\<close>.\<close>

definition invoice_invalid_paths :: "invoice \<Rightarrow> string list" where
  "invoice_invalid_paths d =
     (if inv_amount d < 0 then [''amount''] else []) @
     (if amountPaid d < 0 then [''amountPaid''] else [])"

text \<open>The virtual \<^verbatim>\<open>isOverdue\<close>.\<close>

definition isOverdue :: "clock \<Rightarrow> invoice \<Rightarrow> bool" where
  "isOverdue c d = (inv_status d \<noteq> Paid \<and> inv_status d \<noteq> Cancelled \<and> now c > dueDate d)"

text \<open>
  \<^verbatim>\<open>save()\<close>: validation, then the two \<^verbatim>\<open>pre('save')\<close> hooks in the order of their
  registration (overdue status, balance), then the write.
\<close>

definition save :: "clock \<Rightarrow> fin_state \<Rightarrow> (error + invoice) \<times> fin_state" where
  "save c st =
     (case invoice_invalid_paths (doc st) of
        x # xs \<Rightarrow> (Inl (ValidationError (x # xs)), st)
      | [] \<Rightarrow>
          (let d1 = (if isOverdue c (doc st) \<and> inv_status (doc st) = Unpaid
                     then (doc st)\<lparr>inv_status := Overdue\<rparr> else doc st);
               d2 = d1\<lparr>balance := inv_amount d1 - amountPaid d1\<rparr>
           in (Inr d2, st\<lparr>doc := d2, stored := Some d2\<rparr>)))"

record paymentData =
  pd_paymentMethod :: "string option"
  pd_reference :: "string option"
  pd_notes :: "string option"

text \<open>The object literal that \<^verbatim>\<open>recordPayment\<close> passes to \<^verbatim>\<open>Payment.create\<close>.\<close>

definition recordPayment_object :: "invoice \<Rightarrow> int \<Rightarrow> paymentData \<Rightarrow> payment" where
  "recordPayment_object this paymentAmount pd =
     \<lparr>pay_invoiceId = Some (inv_id this),
      pay_studentId = Some (inv_studentId this),
      paymentNumber = None,
      pay_amount = Some paymentAmount,
      paymentMethod = pd_paymentMethod pd,
      reference = pd_reference pd,
      paymentDate = None,
      recordedBy = None,
      pay_status = None,
      pay_notes = pd_notes pd\<rparr>"

text \<open>The block \<^verbatim>\<open>// Update invoice\<close> of \<^verbatim>\<open>recordPayment\<close>, before the save.\<close>

definition recordPayment_update :: "clock \<Rightarrow> int \<Rightarrow> invoice \<Rightarrow> invoice" where
  "recordPayment_update c paymentAmount this =
     (let d1 = this\<lparr>amountPaid := amountPaid this + paymentAmount\<rparr>;
          d2 = d1\<lparr>balance := inv_amount d1 - amountPaid d1\<rparr>
      in if balance d2 \<le> 0 then d2\<lparr>inv_status := Paid, paidDate := Some (now c)\<rparr>
         else if amountPaid d2 > 0 then d2\<lparr>inv_status := PartiallyPaid\<rparr>
         else d2)"

definition recordPayment :: "clock \<Rightarrow> int \<Rightarrow> paymentData \<Rightarrow> fin_state \<Rightarrow> (error + payment) \<times> fin_state" where
  "recordPayment c paymentAmount pd st =
     (if inv_status (doc st) = Paid then (Inl InvoiceAlreadyPaid, st)
      else if inv_status (doc st) = Cancelled then (Inl CannotPayCancelledInvoice, st)
      else
        (case Payment_create c (recordPayment_object (doc st) paymentAmount pd) (payments st) of
           Inl e \<Rightarrow> (Inl e, st)
         | Inr (pay, ps) \<Rightarrow>
             (case save c (st\<lparr>doc := recordPayment_update c paymentAmount (doc st),
                               payments := ps\<rparr>) of
                (Inl e, st') \<Rightarrow> (Inl e, st')
              | (Inr d, st') \<Rightarrow> (Inr pay, st'))))"

definition cancel :: "clock \<Rightarrow> fin_state \<Rightarrow> (error + invoice) \<times> fin_state" where
  "cancel c st =
     (if amountPaid (doc st) > 0 then (Inl CannotCancelInvoiceWithPayments, st)
      else save c (st\<lparr>doc := (doc st)\<lparr>inv_status := Cancelled\<rparr>\<rparr>))"

text \<open>
  A sequence of mutations of one invoice: each step is a call of \<^verbatim>\<open>recordPayment\<close>,
  \<^verbatim>\<open>cancel\<close> or \<^verbatim>\<open>save\<close> at its own instant; the outcome of the call (a value or an
  error) is dropped and the state it leaves is kept.
\<close>

datatype invoice_op = RecordPayment int paymentData | Cancel | Save

fun invoice_step :: "clock \<times> invoice_op \<Rightarrow> fin_state \<Rightarrow> fin_state" where
  "invoice_step (c, RecordPayment a pd) st = snd (recordPayment c a pd st)"
| "invoice_step (c, Cancel) st = snd (cancel c st)"
| "invoice_step (c, Save) st = snd (save c st)"

text \<open>The invariant of the invoice at rest (the stored copy, when there is one).\<close>

definition invoice_at_rest_ok :: "fin_state \<Rightarrow> bool" where
  "invoice_at_rest_ok st =
     (case stored st of
        None \<Rightarrow> True
      | Some d \<Rightarrow> balance d = inv_amount d - amountPaid d \<and> amountPaid d \<ge> 0)"

text \<open>
  The tenant of a payment: a payment has no \<^verbatim>\<open>schoolId\<close> of its own; it refers to an
  invoice, and the invoice carries the \<^verbatim>\<open>schoolId\<close>.
\<close>

definition payment_school :: "invoice list \<Rightarrow> payment \<Rightarrow> objectId option" where
  "payment_school invs p =
     (case pay_invoiceId p of
        None \<Rightarrow> None
      | Some i \<Rightarrow> map_option inv_schoolId (find (\<lambda>d. inv_id d = i) invs))"

section \<open>Membership ledger: \<^verbatim>\<open>models/Class.js\<close> and \<^verbatim>\<open>models/Enrollment.js\<close>\<close>

record class_doc =
  cls_id :: objectId
  cls_schoolId :: objectId
  cls_academicYear :: string

datatype enrollment_status = Active | Completed | Transferred | Withdrawn | Suspended

record enrollment =
  enr_id :: objectId
  enr_studentId :: objectId
  enr_classId :: objectId
  enr_academicYear :: string
  enrollmentDate :: timestamp
  enr_status :: enrollment_status
  statusChangeDate :: "timestamp option"
  statusChangeReason :: "string option"
  transferredToClassId :: "objectId option"
  finalGrade :: "string option"
  enr_notes :: "string option"

record attendance =
  att_id :: objectId
  att_studentId :: objectId
  att_classId :: objectId
  att_date :: timestamp
  att_status :: string
  arrivalTime :: "string option"
  att_notes :: "string option"
  att_recordedBy :: objectId
  att_academicYear :: string
  att_createdAt :: timestamp
  att_updatedAt :: "timestamp option"

text \<open>
  The collections read and written by the membership and presence ledgers. The fields
  \<^verbatim>\<open>createdAt\<close> and \<^verbatim>\<open>updatedAt\<close> that \<^verbatim>\<open>timestamps: true\<close> adds to every schema are
  modelled for the attendance documents only; \<^verbatim>\<open>attendanceSummary\<close> is not modelled.
\<close>

record db =
  classes :: "class_doc list"
  enrollments :: "enrollment list"
  attendances :: "attendance list"

text \<open>A new \<^verbatim>\<open>_id\<close> is one that no stored document has.\<close>

definition fresh_id :: "objectId list \<Rightarrow> objectId" where
  "fresh_id ids = Suc (fold max ids 0)"

text \<open>
  The write of a save, \<^verbatim>\<open>updateOne({_id: ...}, ...)\<close>: the first document that the
  selector finds is replaced.
\<close>

fun replace_first :: "('a \<Rightarrow> bool) \<Rightarrow> 'a \<Rightarrow> 'a list \<Rightarrow> 'a list" where
  "replace_first P d [] = []"
| "replace_first P d (r # rs) = (if P r then d # rs else r # replace_first P d rs)"

definition Class_findById :: "objectId \<Rightarrow> class_doc list \<Rightarrow> class_doc option" where
  "Class_findById i cs = find (\<lambda>c. cls_id c = i) cs"

text \<open>
  The unique index on \<^verbatim>\<open>{studentId, classId, academicYear, status}\<close> with
  \<^verbatim>\<open>partialFilterExpression: {status: 'active'}\<close>: a write of document \<open>d\<close> is rejected
  when \<open>d\<close> is active and another active document has the same key.
\<close>

definition enrollment_key :: "enrollment \<Rightarrow> objectId \<times> objectId \<times> string" where
  "enrollment_key e = (enr_studentId e, enr_classId e, enr_academicYear e)"

definition violates_active_index :: "enrollment \<Rightarrow> enrollment list \<Rightarrow> bool" where
  "violates_active_index d es =
     (enr_status d = Active \<and>
      (\<exists>e \<in> set es. enr_id e \<noteq> enr_id d \<and> enr_status e = Active \<and>
                     enrollment_key e = enrollment_key d))"

text \<open>The object given to \<^verbatim>\<open>Enrollment.create\<close>; an absent property is \<open>None\<close>.\<close>

record enrollment_object =
  eo_studentId :: "objectId option"
  eo_classId :: "objectId option"
  eo_academicYear :: "string option"
  eo_enrollmentDate :: "timestamp option"
  eo_status :: "enrollment_status option"

definition enrollment_object_invalid_paths :: "enrollment_object \<Rightarrow> string list" where
  "enrollment_object_invalid_paths obj =
     (if eo_studentId obj = None then [''studentId''] else []) @
     (if eo_classId obj = None then [''classId''] else []) @
     (if eo_academicYear obj = None \<or> eo_academicYear obj = Some [] then [''academicYear''] else [])"

text \<open>
  \<^verbatim>\<open>Enrollment.create(obj)\<close>: the document gets its defaults (\<^verbatim>\<open>enrollmentDate: Date.now\<close>,
  \<^verbatim>\<open>status: 'active'\<close>) and a new id, and is saved: validation of the required paths; the
  first \<^verbatim>\<open>pre('save')\<close> hook (the class must exist and carry the same academic year); the
  second hook (a status given in \<open>obj\<close> counts as modified, so the change date is
  stamped); the insert, checked by the unique index.
\<close>

definition Enrollment_create :: "clock \<Rightarrow> enrollment_object \<Rightarrow> db \<Rightarrow> error + enrollment \<times> db" where
  "Enrollment_create c obj st =
     (case (eo_studentId obj, eo_classId obj, eo_academicYear obj) of
        (Some sid, Some cid, Some year) \<Rightarrow>
          (if year = [] then Inl (ValidationError (enrollment_object_invalid_paths obj))
           else
             (case Class_findById cid (classes st) of
                None \<Rightarrow> Inl ClassNotFound
              | Some classDoc \<Rightarrow>
                  if year \<noteq> cls_academicYear classDoc
                  then Inl (AcademicYearMismatch year (cls_academicYear classDoc))
                  else
                    (let d = \<lparr>enr_id = fresh_id (map enr_id (enrollments st)),
                              enr_studentId = sid,
                              enr_classId = cid,
                              enr_academicYear = year,
                              enrollmentDate =
                                (case eo_enrollmentDate obj of None \<Rightarrow> now c | Some t \<Rightarrow> t),
                              enr_status =
                                (case eo_status obj of None \<Rightarrow> Active | Some s \<Rightarrow> s),
                              statusChangeDate =
                                (if eo_status obj = None then None else Some (now c)),
                              statusChangeReason = None,
                              transferredToClassId = None,
                              finalGrade = None,
                              enr_notes = None\<rparr>
                     in if violates_active_index d (enrollments st)
                        then Inl DuplicateKeyError
                        else Inr (d, st\<lparr>enrollments := enrollments st @ [d]\<rparr>))))
      | _ \<Rightarrow> Inl (ValidationError (enrollment_object_invalid_paths obj)))"

text \<open>
  \<^verbatim>\<open>save()\<close> of a document that was loaded from the collection. A path is modified
  when its value differs from the stored one. Validation, the two hooks, the index, then
  the write of the document under its id.
\<close>

definition Enrollment_save :: "clock \<Rightarrow> enrollment \<Rightarrow> db \<Rightarrow> error + enrollment \<times> db" where
  "Enrollment_save c this st =
     (case find (\<lambda>e. enr_id e = enr_id this) (enrollments st) of
        None \<Rightarrow> Inl DocumentNotFoundError
      | Some orig \<Rightarrow>
          if enr_academicYear this = [] then Inl (ValidationError [''academicYear''])
          else if enr_classId this \<noteq> enr_classId orig \<and>
                  Class_findById (enr_classId this) (classes st) = None
          then Inl ClassNotFound
          else if enr_classId this \<noteq> enr_classId orig \<and>
                  map_option cls_academicYear (Class_findById (enr_classId this) (classes st))
                    \<noteq> Some (enr_academicYear this)
          then Inl (AcademicYearMismatch (enr_academicYear this)
                      (case Class_findById (enr_classId this) (classes st) of
                         None \<Rightarrow> [] | Some k \<Rightarrow> cls_academicYear k))
          else
            (let d = (if enr_status this \<noteq> enr_status orig \<and>
                         statusChangeDate this = statusChangeDate orig
                      then this\<lparr>statusChangeDate := Some (now c)\<rparr> else this)
             in if violates_active_index d (enrollments st)
                then Inl DuplicateKeyError
                else Inr (d, st\<lparr>enrollments :=
                            replace_first (\<lambda>e. enr_id e = enr_id d) d (enrollments st)\<rparr>)))"

text \<open>\<^verbatim>\<open>enrollmentSchema.methods.transferTo\<close>, on a loaded document \<open>this\<close>.\<close>

definition transferTo :: "clock \<Rightarrow> enrollment \<Rightarrow> objectId \<Rightarrow> string option \<Rightarrow> db \<Rightarrow> (error + enrollment) \<times> db" where
  "transferTo c this newClassId reason st =
     (case Enrollment_save c
             (this\<lparr>enr_status := Transferred,
                   transferredToClassId := Some newClassId,
                   statusChangeDate := Some (now c),
                   statusChangeReason := reason\<rparr>) st of
        Inl e \<Rightarrow> (Inl e, st)
      | Inr (saved, st1) \<Rightarrow>
          (case Class_findById newClassId (classes st1) of
             None \<Rightarrow> (Inl TargetClassNotFound, st1)
           | Some newClass \<Rightarrow>
               (case Enrollment_create c
                       \<lparr>eo_studentId = Some (enr_studentId this),
                        eo_classId = Some newClassId,
                        eo_academicYear = Some (cls_academicYear newClass),
                        eo_enrollmentDate = Some (now c),
                        eo_status = Some Active\<rparr> st1 of
                  Inl e \<Rightarrow> (Inl e, st1)
                | Inr (newEnrollment, st2) \<Rightarrow> (Inr newEnrollment, st2))))"

text \<open>\<^verbatim>\<open>complete\<close> and \<^verbatim>\<open>withdraw\<close>.\<close>

definition complete :: "clock \<Rightarrow> enrollment \<Rightarrow> string option \<Rightarrow> string option \<Rightarrow> db \<Rightarrow> error + enrollment \<times> db" where
  "complete c this grade notes st =
     Enrollment_save c
       (this\<lparr>enr_status := Completed,
             statusChangeDate := Some (now c),
             finalGrade := grade,
             enr_notes := (if notes = None \<or> notes = Some [] then enr_notes this else notes)\<rparr>) st"

definition withdraw :: "clock \<Rightarrow> enrollment \<Rightarrow> string option \<Rightarrow> db \<Rightarrow> error + enrollment \<times> db" where
  "withdraw c this reason st =
     Enrollment_save c
       (this\<lparr>enr_status := Withdrawn,
             statusChangeDate := Some (now c),
             statusChangeReason := reason\<rparr>) st"

text \<open>
  \<^verbatim>\<open>findActiveByClass\<close>: the active enrollments of a class. The query also populates
  the student reference, which the attendance service models where it reads it, and
  sorts; the order of the result plays no part.
\<close>

definition findActiveByClass :: "objectId \<Rightarrow> enrollment list \<Rightarrow> enrollment list" where
  "findActiveByClass classId es =
     filter (\<lambda>e. enr_classId e = classId \<and> enr_status e = Active) es"

section \<open>Presence ledger: \<^verbatim>\<open>models/Attendance.js\<close>\<close>

text \<open>
  \<^verbatim>\<open>setHours(0, 0, 0, 0)\<close>: the start of the day of an instant; the server's time zone is
  taken to be UTC.
\<close>

definition startOfDay :: "timestamp \<Rightarrow> timestamp" where
  "startOfDay t = t - t mod 86400000"

text \<open>One element of \<^verbatim>\<open>attendanceRecords\<close>.\<close>

record attendance_record =
  rec_studentId :: objectId
  rec_status :: string
  rec_notes :: "string option"
  rec_arrivalTime :: "string option"

text \<open>One \<^verbatim>\<open>updateOne\<close> operation with \<^verbatim>\<open>upsert: true\<close>: its filter and its \<^verbatim>\<open>$set\<close>.\<close>

record updateOne =
  filter_studentId :: objectId
  filter_date :: timestamp
  set_classId :: objectId
  set_status :: string
  set_notes :: string
  set_recordedBy :: objectId
  set_academicYear :: string
  set_arrivalTime :: "string option"

text \<open>
  The key of the unique index \<^verbatim>\<open>{studentId, date}\<close> of a document, and the key an
  operation's filter selects.
\<close>

definition att_key :: "attendance \<Rightarrow> objectId \<times> timestamp" where
  "att_key r = (att_studentId r, att_date r)"

definition op_key :: "updateOne \<Rightarrow> objectId \<times> timestamp" where
  "op_key op = (filter_studentId op, filter_date op)"

definition matches :: "updateOne \<Rightarrow> attendance \<Rightarrow> bool" where
  "matches op r = (att_studentId r = filter_studentId op \<and> att_date r = filter_date op)"

text \<open>
  The setter of \<^verbatim>\<open>trim: true\<close> on the path \<^verbatim>\<open>notes\<close>: \<^verbatim>\<open>String.prototype.trim\<close>, on
  the white space of ASCII.
\<close>

definition trim :: "string \<Rightarrow> string" where
  "trim s = rev (dropWhile is_space (rev (dropWhile is_space s)))"

text \<open>
  What \<^verbatim>\<open>bulkWrite\<close> makes of the \<^verbatim>\<open>$set\<close> of an operation on the document it matches:
  Mongoose casts the update with the schema, so the notes pass their \<^verbatim>\<open>trim\<close> setter,
  and, the schema having \<^verbatim>\<open>timestamps: true\<close>, it adds \<^verbatim>\<open>updatedAt\<close> to \<^verbatim>\<open>$set\<close> with the
  instant of the call. An update runs no validator.
\<close>

definition apply_set :: "clock \<Rightarrow> updateOne \<Rightarrow> attendance \<Rightarrow> attendance" where
  "apply_set c op r =
     r\<lparr>att_classId := set_classId op,
       att_status := set_status op,
       att_notes := Some (trim (set_notes op)),
       att_recordedBy := set_recordedBy op,
       att_academicYear := set_academicYear op,
       arrivalTime := set_arrivalTime op,
       att_updatedAt := Some (now c)\<rparr>"

text \<open>
  The document an upsert inserts: the fields of the filter and of \<^verbatim>\<open>$set\<close>, and
  \<^verbatim>\<open>createdAt\<close> from the \<^verbatim>\<open>$setOnInsert\<close> that the timestamps add.
\<close>

definition upsert_doc :: "clock \<Rightarrow> objectId \<Rightarrow> updateOne \<Rightarrow> attendance" where
  "upsert_doc c i op =
     \<lparr>att_id = i,
      att_studentId = filter_studentId op,
      att_classId = set_classId op,
      att_date = filter_date op,
      att_status = set_status op,
      arrivalTime = set_arrivalTime op,
      att_notes = Some (trim (set_notes op)),
      att_recordedBy = set_recordedBy op,
      att_academicYear = set_academicYear op,
      att_createdAt = now c,
      att_updatedAt = Some (now c)\<rparr>"

text \<open>\<^verbatim>\<open>updateOne\<close> changes the first document that matches the filter.\<close>

fun update_first :: "clock \<Rightarrow> updateOne \<Rightarrow> attendance list \<Rightarrow> attendance list" where
  "update_first c op [] = []"
| "update_first c op (r # rs) =
     (if matches op r then apply_set c op r # rs else r # update_first c op rs)"

definition updateOne_upsert :: "clock \<Rightarrow> updateOne \<Rightarrow> attendance list \<Rightarrow> attendance list" where
  "updateOne_upsert c op rs =
     (if \<exists>r \<in> set rs. matches op r then update_first c op rs
      else rs @ [upsert_doc c (fresh_id (map att_id rs)) op])"

record bulk_result =
  upsertedCount :: nat
  modifiedCount :: nat

text \<open>
  One step of an ordered \<^verbatim>\<open>bulkWrite\<close>: the counters tell an insert from a match whose
  \<^verbatim>\<open>$set\<close>, \<^verbatim>\<open>updatedAt\<close> included, changed the document.
\<close>

definition bulk_step :: "clock \<Rightarrow> updateOne \<Rightarrow> bulk_result \<times> attendance list \<Rightarrow> bulk_result \<times> attendance list" where
  "bulk_step c op acc =
     (case acc of (res, rs) \<Rightarrow>
        (case find (matches op) rs of
           None \<Rightarrow> (res\<lparr>upsertedCount := upsertedCount res + 1\<rparr>, updateOne_upsert c op rs)
         | Some r \<Rightarrow>
             ((if apply_set c op r = r then res
               else res\<lparr>modifiedCount := modifiedCount res + 1\<rparr>),
              updateOne_upsert c op rs)))"

definition bulkWrite :: "clock \<Rightarrow> updateOne list \<Rightarrow> attendance list \<Rightarrow> bulk_result \<times> attendance list" where
  "bulkWrite c ops rs = fold (bulk_step c) ops (\<lparr>upsertedCount = 0, modifiedCount = 0\<rparr>, rs)"

text \<open>The operation built for one record (\<^verbatim>\<open>x || ''\<close> and \<^verbatim>\<open>x || null\<close> spelled out).\<close>

definition attendance_operation :: "objectId \<Rightarrow> timestamp \<Rightarrow> objectId \<Rightarrow> string \<Rightarrow> attendance_record \<Rightarrow> updateOne" where
  "attendance_operation classId normalizedDate actor year record =
     \<lparr>filter_studentId = rec_studentId record,
      filter_date = normalizedDate,
      set_classId = classId,
      set_status = rec_status record,
      set_notes = (case rec_notes record of None \<Rightarrow> [] | Some n \<Rightarrow> n),
      set_recordedBy = actor,
      set_academicYear = year,
      set_arrivalTime =
        (case rec_arrivalTime record of None \<Rightarrow> None
           | Some t \<Rightarrow> if t = [] then None else Some t)\<rparr>"

text \<open>
  \<^verbatim>\<open>attendanceSchema.statics.markClassAttendance\<close>; the clock is the instant at which
  \<^verbatim>\<open>bulkWrite\<close> stamps the documents.
\<close>

definition Attendance_markClassAttendance :: "clock \<Rightarrow> objectId \<Rightarrow> timestamp \<Rightarrow> attendance_record list \<Rightarrow> objectId \<Rightarrow> db \<Rightarrow> (error + bulk_result) \<times> db" where
  "Attendance_markClassAttendance c classId date attendanceRecords actor st =
     (case Class_findById classId (classes st) of
        None \<Rightarrow> (Inl ClassNotFound, st)
      | Some classDoc \<Rightarrow>
          (let normalizedDate = startOfDay date;
               operations = map (attendance_operation classId normalizedDate actor
                                   (cls_academicYear classDoc)) attendanceRecords;
               written = bulkWrite c operations (attendances st)
           in (Inr (fst written), st\<lparr>attendances := snd written\<rparr>)))"

text \<open>
  A stored document without its \<^verbatim>\<open>updatedAt\<close>: every other field, \<^verbatim>\<open>_id\<close> and
  \<^verbatim>\<open>createdAt\<close> included.
\<close>

definition except_updatedAt :: "attendance \<Rightarrow> attendance" where
  "except_updatedAt r = r\<lparr>att_updatedAt := None\<rparr>"

section \<open>Error handler: \<^verbatim>\<open>middleware/errorHandler.js\<close>\<close>

text \<open>
  The status of the answer to an error that a controller hands to \<^verbatim>\<open>next\<close>: 400 for
  an error named \<^verbatim>\<open>ValidationError\<close>, 409 for code 11000, and the default 500 for the
  others modelled here, which carry no \<^verbatim>\<open>statusCode\<close>.
\<close>

definition errorHandler :: "error \<Rightarrow> nat" where
  "errorHandler err =
     (case err of ValidationError paths \<Rightarrow> 400 | DuplicateKeyError \<Rightarrow> 409 | _ \<Rightarrow> 500)"

section \<open>Presence ledger: \<^verbatim>\<open>services/attendanceService.js\<close>\<close>

text \<open>The acting user (\<^verbatim>\<open>recordedBy\<close>, \<^verbatim>\<open>updatedBy\<close>). The audit log is not part of the state.\<close>

record user =
  usr_id :: objectId
  usr_schoolId :: objectId

definition Class_findOne :: "objectId \<Rightarrow> objectId \<Rightarrow> class_doc list \<Rightarrow> class_doc option" where
  "Class_findOne i school cs = find (\<lambda>c. cls_id c = i \<and> cls_schoolId c = school) cs"

text \<open>
  The strings that \<^verbatim>\<open>includes\<close> compares. \<^verbatim>\<open>toString()\<close> of an ObjectId is its 24
  hexadecimal digits.
\<close>

definition hex_char :: "nat \<Rightarrow> char" where
  "hex_char n = ''0123456789abcdef'' ! n"

function hex_of_nat :: "nat \<Rightarrow> string" where
  "hex_of_nat n =
     (if n < 16 then [hex_char n]
      else hex_of_nat (n div 16) @ [hex_char (n mod 16)])"
  by pat_completeness auto
termination
  by (relation "measure id") auto

declare hex_of_nat.simps [simp del]

definition ObjectId_toString :: "objectId \<Rightarrow> string" where
  "ObjectId_toString i = padStart 24 (hex_of_nat i)"

text \<open>
  \<^verbatim>\<open>findActiveByClass\<close> populates \<^verbatim>\<open>studentId\<close>: in each enrollment it returns, the
  reference is replaced by the Student document with that \<^verbatim>\<open>_id\<close>, or by null when there
  is none. The Student model is not among the sources: of a student only \<^verbatim>\<open>_id\<close> is
  modelled, and the collection of students is an argument of the service.
  \<^verbatim>\<open>toString()\<close> of a document is the inspect string of its object, a brace, the fields
  and a brace; how the fields are printed plays no part below.
\<close>

record student_doc =
  stu_id :: objectId

definition populate_studentId :: "student_doc list \<Rightarrow> enrollment \<Rightarrow> student_doc option" where
  "populate_studentId students e = find (\<lambda>s. stu_id s = enr_studentId e) students"

definition Document_toString :: "student_doc \<Rightarrow> string" where
  "Document_toString s = ''{ _id: new ObjectId('' @ ObjectId_toString (stu_id s) @ '') }''"

text \<open>
  \<^verbatim>\<open>AttendanceService.markClassAttendance\<close>; the result of a success is
  \<^verbatim>\<open>studentsMarked\<close>. \<^verbatim>\<open>enrolledStudentIds\<close> holds \<^verbatim>\<open>e.studentId.toString()\<close> of the
  populated enrollments, which throws a \<^verbatim>\<open>TypeError\<close> on a null; a record is invalid
  when the string of its student id is not among them. The audit entry that follows the
  bulk write is not part of the state.
\<close>

definition markClassAttendance :: "clock \<Rightarrow> student_doc list \<Rightarrow> objectId \<Rightarrow> timestamp \<Rightarrow> attendance_record list \<Rightarrow> user \<Rightarrow> db \<Rightarrow> (error + nat) \<times> db" where
  "markClassAttendance c students classId date attendanceRecords actor st =
     (case Class_findOne classId (usr_schoolId actor) (classes st) of
        None \<Rightarrow> (Inl ClassNotFound, st)
      | Some classDoc \<Rightarrow>
          (case those (map (\<lambda>e. map_option Document_toString (populate_studentId students e))
                         (findActiveByClass classId (enrollments st))) of
             None \<Rightarrow> (Inl TypeError, st)
           | Some enrolledStudentIds \<Rightarrow>
               (let invalidStudents =
                      filter (\<lambda>record. ObjectId_toString (rec_studentId record)
                                          \<notin> set enrolledStudentIds)
                        attendanceRecords
                in if length invalidStudents > 0
                   then (Inl (StudentsNotEnrolled (map rec_studentId invalidStudents)), st)
                   else
                     (case Attendance_markClassAttendance c classId date attendanceRecords
                             (usr_id actor) st of
                        (Inl e, st') \<Rightarrow> (Inl e, st')
                      | (Inr result, st') \<Rightarrow>
                          (Inr (upsertedCount result + modifiedCount result), st')))))"

text \<open>
  The values of an \<^verbatim>\<open>updates\<close> object are those of a JSON body (arrays and objects are
  left out). How Mongoose converts a value to the type of a path depends on its version,
  which the sources do not fix: the conversions are an argument, \<open>None\<close> being a value
  that the type refuses.
\<close>

datatype jsval = JNull | JBool bool | JNum int | JStr string

record casts =
  castObjectId :: "jsval \<Rightarrow> objectId option"
  castString :: "jsval \<Rightarrow> string option"
  castDate :: "jsval \<Rightarrow> timestamp option"

text \<open>
  The value for a required path: null is refused like a value that does not convert.
  The value for an optional path: null empties the path.
\<close>

definition cast_required :: "(jsval \<Rightarrow> 'v option) \<Rightarrow> jsval \<Rightarrow> 'v option" where
  "cast_required cast v = (if v = JNull then None else cast v)"

definition cast_optional :: "(jsval \<Rightarrow> 'v option) \<Rightarrow> jsval \<Rightarrow> 'v option option" where
  "cast_optional cast v = (if v = JNull then Some None else map_option Some (cast v))"

text \<open>
  The assignment \<^verbatim>\<open>attendance[key] = value\<close> on a loaded document, with the paths whose
  assignment has failed so far. \<^verbatim>\<open>_id\<close> is a path of every schema and is assigned like
  the others (null on it is taken as a refused value: the save fails then as well); the
  notes pass their \<^verbatim>\<open>trim\<close> setter; a refused value leaves the path as it is and makes
  the next save fail on that path; \<^verbatim>\<open>createdAt\<close> is immutable, and a key that is no path
  of the schema is ignored (the version key \<^verbatim>\<open>__v\<close> and the properties of the document
  object itself are not modelled).
\<close>

fun assign :: "casts \<Rightarrow> string \<Rightarrow> jsval \<Rightarrow> attendance \<times> string list \<Rightarrow> attendance \<times> string list" where
  "assign cs key v (a, errs) =
     (if key = ''_id'' then
        (case cast_required (castObjectId cs) v of
           Some i \<Rightarrow> (a\<lparr>att_id := i\<rparr>, errs) | None \<Rightarrow> (a, errs @ [key]))
      else if key = ''studentId'' then
        (case cast_required (castObjectId cs) v of
           Some i \<Rightarrow> (a\<lparr>att_studentId := i\<rparr>, errs) | None \<Rightarrow> (a, errs @ [key]))
      else if key = ''classId'' then
        (case cast_required (castObjectId cs) v of
           Some i \<Rightarrow> (a\<lparr>att_classId := i\<rparr>, errs) | None \<Rightarrow> (a, errs @ [key]))
      else if key = ''date'' then
        (case cast_required (castDate cs) v of
           Some d \<Rightarrow> (a\<lparr>att_date := d\<rparr>, errs) | None \<Rightarrow> (a, errs @ [key]))
      else if key = ''status'' then
        (case cast_required (castString cs) v of
           Some s \<Rightarrow> (a\<lparr>att_status := s\<rparr>, errs) | None \<Rightarrow> (a, errs @ [key]))
      else if key = ''arrivalTime'' then
        (case cast_optional (castString cs) v of
           Some t \<Rightarrow> (a\<lparr>arrivalTime := t\<rparr>, errs) | None \<Rightarrow> (a, errs @ [key]))
      else if key = ''notes'' then
        (case cast_optional (castString cs) v of
           Some n \<Rightarrow> (a\<lparr>att_notes := map_option trim n\<rparr>, errs) | None \<Rightarrow> (a, errs @ [key]))
      else if key = ''recordedBy'' then
        (case cast_required (castObjectId cs) v of
           Some i \<Rightarrow> (a\<lparr>att_recordedBy := i\<rparr>, errs) | None \<Rightarrow> (a, errs @ [key]))
      else if key = ''academicYear'' then
        (case cast_required (castString cs) v of
           Some s \<Rightarrow> (a\<lparr>att_academicYear := s\<rparr>, errs) | None \<Rightarrow> (a, errs @ [key]))
      else if key = ''updatedAt'' then
        (case cast_optional (castDate cs) v of
           Some d \<Rightarrow> (a\<lparr>att_updatedAt := d\<rparr>, errs) | None \<Rightarrow> (a, errs @ [key]))
      else (a, errs))"

definition attendanceStatuses :: "string list" where
  "attendanceStatuses = [''present'', ''absent'', ''late'', ''excused'', ''sick'']"

text \<open>
  The write of \<^verbatim>\<open>save()\<close> is \<^verbatim>\<open>updateOne({_id: this._id}, {$set: ...})\<close> with the
  modified paths only: a path is written when the document in memory differs there from
  the document that was loaded. \<open>write_modified loaded d target\<close> is the stored document
  \<open>target\<close> after that write. (\<^verbatim>\<open>_id\<close>, when modified, is set to the value that selected
  the target.)
\<close>

definition write_modified :: "attendance \<Rightarrow> attendance \<Rightarrow> attendance \<Rightarrow> attendance" where
  "write_modified loaded d target =
     target\<lparr>att_studentId :=
              (if att_studentId d \<noteq> att_studentId loaded then att_studentId d
               else att_studentId target),
            att_classId :=
              (if att_classId d \<noteq> att_classId loaded then att_classId d else att_classId target),
            att_date := (if att_date d \<noteq> att_date loaded then att_date d else att_date target),
            att_status :=
              (if att_status d \<noteq> att_status loaded then att_status d else att_status target),
            arrivalTime :=
              (if arrivalTime d \<noteq> arrivalTime loaded then arrivalTime d else arrivalTime target),
            att_notes := (if att_notes d \<noteq> att_notes loaded then att_notes d else att_notes target),
            att_recordedBy :=
              (if att_recordedBy d \<noteq> att_recordedBy loaded then att_recordedBy d
               else att_recordedBy target),
            att_academicYear :=
              (if att_academicYear d \<noteq> att_academicYear loaded then att_academicYear d
               else att_academicYear target),
            att_updatedAt :=
              (if att_updatedAt d \<noteq> att_updatedAt loaded then att_updatedAt d
               else att_updatedAt target)\<rparr>"

text \<open>
  \<^verbatim>\<open>save()\<close> of the attendance document \<open>loaded\<close> after the assignments that made it
  \<open>a\<close>, with the paths whose assignment failed: validation (\<^verbatim>\<open>status\<close> in its \<^verbatim>\<open>enum\<close>,
  \<^verbatim>\<open>academicYear\<close> required), the hook of the timestamps, which sets \<^verbatim>\<open>updatedAt\<close> on a
  modified document, the hook that normalises a modified date, then the write, which
  selects by the \<^verbatim>\<open>_id\<close> that the document has now: \<^verbatim>\<open>DocumentNotFoundError\<close> when no
  stored document has it, code 11000 when the write would give a stored document the
  \<^verbatim>\<open>{studentId, date}\<close> of another.
\<close>

definition Attendance_save :: "clock \<Rightarrow> attendance \<Rightarrow> attendance \<times> string list \<Rightarrow> db \<Rightarrow> error + attendance \<times> db" where
  "Attendance_save c loaded this st =
     (case this of (a, errs) \<Rightarrow>
        (case errs @ (if att_status a \<in> set attendanceStatuses then [] else [''status''])
                   @ (if att_academicYear a = [] then [''academicYear''] else []) of
           x # xs \<Rightarrow> Inl (ValidationError (x # xs))
         | [] \<Rightarrow>
             (let s = (if a \<noteq> loaded then a\<lparr>att_updatedAt := Some (now c)\<rparr> else a);
                  d = (if att_date s \<noteq> att_date loaded
                       then s\<lparr>att_date := startOfDay (att_date s)\<rparr> else s)
              in case find (\<lambda>r. att_id r = att_id d) (attendances st) of
                   None \<Rightarrow> Inl DocumentNotFoundError
                 | Some target \<Rightarrow>
                     (let t = write_modified loaded d target
                      in if att_key t \<noteq> att_key target \<and>
                            (\<exists>r \<in> set (attendances st).
                               att_id r \<noteq> att_id t \<and> att_key r = att_key t)
                         then Inl DuplicateKeyError
                         else Inr (d, st\<lparr>attendances :=
                                     replace_first (\<lambda>r. att_id r = att_id d) t
                                       (attendances st)\<rparr>)))))"

text \<open>
  The callback of \<^verbatim>\<open>Object.keys(updates).forEach\<close> in \<^verbatim>\<open>updateAttendance\<close>: the three
  identity keys are skipped, every other key is assigned.
\<close>

definition guarded_assign :: "casts \<Rightarrow> string \<times> jsval \<Rightarrow> attendance \<times> string list \<Rightarrow> attendance \<times> string list" where
  "guarded_assign cs = (\<lambda>(key, v) acc.
      if key \<noteq> ''studentId'' \<and> key \<noteq> ''classId'' \<and> key \<noteq> ''date''
      then assign cs key v acc else acc)"

text \<open>
  \<^verbatim>\<open>AttendanceService.updateAttendance\<close>; \<open>updates\<close> lists the object's keys in order,
  and the result of a success is the document in memory after the save.
\<close>

definition updateAttendance :: "clock \<Rightarrow> casts \<Rightarrow> objectId \<Rightarrow> (string \<times> jsval) list \<Rightarrow> user \<Rightarrow> db \<Rightarrow> (error + attendance) \<times> db" where
  "updateAttendance c cs attendanceId updates updatedBy st =
     (case find (\<lambda>r. att_id r = attendanceId) (attendances st) of
        None \<Rightarrow> (Inl AttendanceRecordNotFound, st)
      | Some attendance \<Rightarrow>
          (case Class_findOne (att_classId attendance) (usr_schoolId updatedBy) (classes st) of
             None \<Rightarrow> (Inl Unauthorized, st)
           | Some classDoc \<Rightarrow>
               (case Attendance_save c attendance
                       (fold (guarded_assign cs) updates (attendance, [])) st of
                  Inl e \<Rightarrow> (Inl e, st)
                | Inr (saved, st') \<Rightarrow> (Inr saved, st'))))"

text \<open>The identity of an attendance document: its id, student, class and day.\<close>

definition att_identity :: "attendance \<Rightarrow> objectId \<times> objectId \<times> objectId \<times> timestamp" where
  "att_identity r = (att_id r, att_studentId r, att_classId r, att_date r)"

text \<open>
  The paths that the attendance schema declares other than the three of the identity;
  the paths on which an updates object carries a value that is refused, among the
  entries whose key is not \<^verbatim>\<open>studentId\<close>, \<^verbatim>\<open>classId\<close> or \<^verbatim>\<open>date\<close>; and the document that
  the updates ask for: the loaded one with every such entry assigned, and with
  \<^verbatim>\<open>updatedAt\<close> at the instant of the save when that changed anything.
\<close>

definition overwritable_paths :: "string list" where
  "overwritable_paths = [''status'', ''arrivalTime'', ''notes'', ''recordedBy'', ''academicYear'']"

definition identity_paths :: "string list" where
  "identity_paths = [''studentId'', ''classId'', ''date'']"

definition refused :: "casts \<Rightarrow> (string \<times> jsval) list \<Rightarrow> attendance \<Rightarrow> string list" where
  "refused cs updates loaded =
     snd (fold (\<lambda>(key, v). assign cs key v)
            (filter (\<lambda>(key, v). key \<notin> set identity_paths) updates) (loaded, []))"

definition overwritten :: "clock \<Rightarrow> casts \<Rightarrow> (string \<times> jsval) list \<Rightarrow> attendance \<Rightarrow> attendance" where
  "overwritten c cs updates loaded =
     (let a = fst (fold (\<lambda>(key, v). assign cs key v)
                     (filter (\<lambda>(key, v). key \<notin> set identity_paths) updates) (loaded, []))
      in if a \<noteq> loaded then a\<lparr>att_updatedAt := Some (now c)\<rparr> else a)"

section \<open>Invariant and steps of the membership ledger\<close>

text \<open>
  The enrollments collection is sound when no two documents share an \<^verbatim>\<open>_id\<close> and no two
  active documents share their (student, class, academic year).
\<close>

definition membership_ok :: "enrollment list \<Rightarrow> bool" where
  "membership_ok es =
     (distinct (map enr_id es) \<and>
      distinct (map enrollment_key (filter (\<lambda>e. enr_status e = Active) es)))"

text \<open>
  A sequence of mutations of the collection: creations, saves of a changed document, and
  the instance methods, each on a document in memory and at its own instant. A call that
  fails leaves what it wrote before failing.
\<close>

datatype membership_op =
    Create enrollment_object
  | SaveDoc enrollment
  | TransferTo enrollment objectId "string option"
  | Complete enrollment "string option" "string option"
  | Withdraw enrollment "string option"

fun membership_step :: "clock \<times> membership_op \<Rightarrow> db \<Rightarrow> db" where
  "membership_step (c, Create obj) st =
     (case Enrollment_create c obj st of Inl e \<Rightarrow> st | Inr (d, st') \<Rightarrow> st')"
| "membership_step (c, SaveDoc this) st =
     (case Enrollment_save c this st of Inl e \<Rightarrow> st | Inr (d, st') \<Rightarrow> st')"
| "membership_step (c, TransferTo this newClassId reason) st =
     snd (transferTo c this newClassId reason st)"
| "membership_step (c, Complete this grade notes) st =
     (case complete c this grade notes st of Inl e \<Rightarrow> st | Inr (d, st') \<Rightarrow> st')"
| "membership_step (c, Withdraw this reason) st =
     (case withdraw c this reason st of Inl e \<Rightarrow> st | Inr (d, st') \<Rightarrow> st')"

text \<open>
  The document as \<^verbatim>\<open>transferTo\<close> assigns it before its first save, and the collection
  with the document of that id replaced.
\<close>

definition marked_transferred :: "clock \<Rightarrow> enrollment \<Rightarrow> objectId \<Rightarrow> string option \<Rightarrow> enrollment" where
  "marked_transferred c this newClassId reason =
     this\<lparr>enr_status := Transferred,
          transferredToClassId := Some newClassId,
          statusChangeDate := Some (now c),
          statusChangeReason := reason\<rparr>"

definition replace_enrollment :: "enrollment \<Rightarrow> enrollment list \<Rightarrow> enrollment list" where
  "replace_enrollment d es = replace_first (\<lambda>e. enr_id e = enr_id d) d es"

text \<open>Data of the scenarios: two classes of one school and year, and a membership.\<close>

definition class_A :: class_doc where
  "class_A = \<lparr>cls_id = 1, cls_schoolId = 3, cls_academicYear = ''2025''\<rparr>"

definition class_B :: class_doc where
  "class_B = \<lparr>cls_id = 2, cls_schoolId = 3, cls_academicYear = ''2025''\<rparr>"

definition membership :: "objectId \<Rightarrow> objectId \<Rightarrow> objectId \<Rightarrow> enrollment_status \<Rightarrow> enrollment" where
  "membership i student cls s =
     \<lparr>enr_id = i, enr_studentId = student, enr_classId = cls, enr_academicYear = ''2025'',
      enrollmentDate = 5, enr_status = s, statusChangeDate = None, statusChangeReason = None,
      transferredToClassId = None, finalGrade = None, enr_notes = None\<rparr>"

text \<open>
  Data of the attendance scenario: students 101 and 102 are active in class 1, student
  103 in class 2, and the three are in the collection of students; a teacher of the
  school; a record of a student at a status; two instants of 15 January 2025; the stored
  document of that day for a student, with the instants of its creation and last update.
\<close>

definition student :: "objectId \<Rightarrow> string \<Rightarrow> attendance_record" where
  "student i s = \<lparr>rec_studentId = i, rec_status = s, rec_notes = None, rec_arrivalTime = None\<rparr>"

definition group_G :: db where
  "group_G = \<lparr>classes = [class_A, class_B],
              enrollments = [membership 11 101 1 Active, membership 12 102 1 Active,
                             membership 13 103 2 Active],
              attendances = []\<rparr>"

definition students_G :: "student_doc list" where
  "students_G = [\<lparr>stu_id = 101\<rparr>, \<lparr>stu_id = 102\<rparr>, \<lparr>stu_id = 103\<rparr>]"

definition teacher :: user where
  "teacher = \<lparr>usr_id = 50, usr_schoolId = 3\<rparr>"

definition morning :: clock where
  "morning = \<lparr>now = 1736928000000, fullYear = 2025\<rparr>"

definition noon :: clock where
  "noon = \<lparr>now = 1736942400000, fullYear = 2025\<rparr>"

definition marked :: "objectId \<Rightarrow> objectId \<Rightarrow> string \<Rightarrow> timestamp \<Rightarrow> timestamp \<Rightarrow> attendance" where
  "marked i s status created updated =
     \<lparr>att_id = i, att_studentId = s, att_classId = 1, att_date = 1736899200000,
      att_status = status, arrivalTime = None, att_notes = Some [], att_recordedBy = 50,
      att_academicYear = ''2025'', att_createdAt = created, att_updatedAt = Some updated\<rparr>"

text \<open>
  A table of conversions for the examples: a string of 24 hexadecimal digits is the
  ObjectId it prints, a string goes to a String path as it is, a number of milliseconds
  is a date; the table refuses every other value.
\<close>

definition example_casts :: casts where
  "example_casts =
     \<lparr>castObjectId = (\<lambda>v. case v of
          JStr s \<Rightarrow> if length s = 24 \<and> list_all is_hexdigit s
                    then Some (foldl (\<lambda>a d. 16 * a + hexdigit_val d) 0 s) else None
        | _ \<Rightarrow> None),
      castString = (\<lambda>v. case v of JStr s \<Rightarrow> Some s | _ \<Rightarrow> None),
      castDate = (\<lambda>v. case v of JNum n \<Rightarrow> if 0 \<le> n then Some (nat n) else None | _ \<Rightarrow> None)\<rparr>"

text \<open>
  Data of the payment-number scenario: an invoice of a school, and a stored payment of
  an invoice with its number.
\<close>

definition school_invoice :: "objectId \<Rightarrow> objectId \<Rightarrow> invoice" where
  "school_invoice i school =
     \<lparr>inv_id = i, inv_studentId = 7, inv_schoolId = school, inv_amount = 1000,
      inv_status = Unpaid, amountPaid = 0, balance = 1000, dueDate = 50, paidDate = None\<rparr>"

definition numbered_payment :: "objectId \<Rightarrow> string \<Rightarrow> payment" where
  "numbered_payment invoiceId number =
     \<lparr>pay_invoiceId = Some invoiceId, pay_studentId = Some 7, paymentNumber = Some number,
      pay_amount = Some 100, paymentMethod = Some ''cash'', reference = None,
      paymentDate = Some 5, recordedBy = Some 50, pay_status = Some ''successful'',
      pay_notes = None\<rparr>"

section \<open>Properties of the financial ledger\<close>

subsection \<open>The invoice at rest\<close>

lemma save_at_rest:
  "invoice_at_rest_ok st \<Longrightarrow> invoice_at_rest_ok (snd (save c st))"
  by (auto simp: save_def invoice_at_rest_ok_def invoice_invalid_paths_def Let_def
           split: list.splits if_splits)

text \<open>Whatever the document in memory holds, a save that succeeds stores a sound invoice.\<close>

lemma save_success_at_rest:
  "save c st = (Inr d, st') \<Longrightarrow>
     stored st' = Some d \<and> balance d = inv_amount d - amountPaid d \<and> 0 \<le> amountPaid d"
  by (auto simp: save_def invoice_invalid_paths_def Let_def split: list.splits if_splits)

lemma at_rest_doc_update [simp]:
  "invoice_at_rest_ok (st\<lparr>doc := d\<rparr>) = invoice_at_rest_ok st"
  "invoice_at_rest_ok (st\<lparr>payments := ps\<rparr>) = invoice_at_rest_ok st"
  by (simp_all add: invoice_at_rest_ok_def)

lemma cancel_at_rest:
  "invoice_at_rest_ok st \<Longrightarrow> invoice_at_rest_ok (snd (cancel c st))"
  by (simp add: cancel_def save_at_rest)

lemma recordPayment_at_rest:
  assumes "invoice_at_rest_ok st"
  shows "invoice_at_rest_ok (snd (recordPayment c a pd st))"
proof -
  have "invoice_at_rest_ok (snd (save c (st\<lparr>doc := d, payments := ps\<rparr>)))" for d ps
    using assms by (intro save_at_rest) simp
  then show ?thesis
    using assms
    by (auto simp: recordPayment_def split: sum.splits prod.splits)
       (metis snd_conv)+
qed

lemma invoice_step_at_rest:
  "invoice_at_rest_ok st \<Longrightarrow> invoice_at_rest_ok (invoice_step op st)"
  by (cases op; cases "snd op") (auto simp: recordPayment_at_rest cancel_at_rest save_at_rest)

text \<open>
  Claim C1. After any sequence of payment applications, cancellations and saves, the
  stored invoice satisfies \<open>balance = amount - amountPaid\<close> and \<open>amountPaid \<ge> 0\<close>,
  provided it did so before the sequence (or no copy was stored yet). The balance is
  recomputed by the \<^verbatim>\<open>pre('save')\<close> hook and a negative \<open>amountPaid\<close> is refused by the
  validator \<^verbatim>\<open>min: 0\<close>, whatever the document in memory holds.
\<close>

theorem invoice_at_rest_invariant:
  "invoice_at_rest_ok st \<Longrightarrow> invoice_at_rest_ok (fold invoice_step ops st)"
  by (induction ops arbitrary: st) (simp_all add: invoice_step_at_rest)

theorem invoice_at_rest_invariant_witness:
  "invoice_at_rest_ok
     \<lparr>doc = \<lparr>inv_id = 1, inv_studentId = 7, inv_schoolId = 3, inv_amount = 1000,
             inv_status = Unpaid, amountPaid = 250, balance = 0, dueDate = 50,
             paidDate = None\<rparr>,
      stored = None, payments = []\<rparr>
   \<and> invoice_at_rest_ok
       (fold invoice_step
          [(\<lparr>now = 10, fullYear = 2025\<rparr>, Save),
           (\<lparr>now = 11, fullYear = 2025\<rparr>,
              RecordPayment 400 \<lparr>pd_paymentMethod = Some ''cash'', pd_reference = None,
                                 pd_notes = None\<rparr>),
           (\<lparr>now = 12, fullYear = 2025\<rparr>, Cancel)]
          \<lparr>doc = \<lparr>inv_id = 1, inv_studentId = 7, inv_schoolId = 3, inv_amount = 1000,
                  inv_status = Unpaid, amountPaid = 250, balance = 0, dueDate = 50,
                  paidDate = None\<rparr>,
           stored = None, payments = []\<rparr>)
   \<and> stored
       (fold invoice_step
          [(\<lparr>now = 10, fullYear = 2025\<rparr>, Save),
           (\<lparr>now = 11, fullYear = 2025\<rparr>,
              RecordPayment 400 \<lparr>pd_paymentMethod = Some ''cash'', pd_reference = None,
                                 pd_notes = None\<rparr>),
           (\<lparr>now = 12, fullYear = 2025\<rparr>, Cancel)]
          \<lparr>doc = \<lparr>inv_id = 1, inv_studentId = 7, inv_schoolId = 3, inv_amount = 1000,
                  inv_status = Unpaid, amountPaid = 250, balance = 0, dueDate = 50,
                  paidDate = None\<rparr>,
           stored = None, payments = []\<rparr>)
     = Some \<lparr>inv_id = 1, inv_studentId = 7, inv_schoolId = 3, inv_amount = 1000,
             inv_status = Unpaid, amountPaid = 250, balance = 750, dueDate = 50,
             paidDate = None\<rparr>"
proof -
  have h: "invoice_at_rest_ok
     \<lparr>doc = \<lparr>inv_id = 1, inv_studentId = 7, inv_schoolId = 3, inv_amount = 1000,
             inv_status = Unpaid, amountPaid = 250, balance = 0, dueDate = 50,
             paidDate = None\<rparr>,
      stored = None, payments = []\<rparr>"
    by (simp add: invoice_at_rest_ok_def)
  have e: "stored
       (fold invoice_step
          [(\<lparr>now = 10, fullYear = 2025\<rparr>, Save),
           (\<lparr>now = 11, fullYear = 2025\<rparr>,
              RecordPayment 400 \<lparr>pd_paymentMethod = Some ''cash'', pd_reference = None,
                                 pd_notes = None\<rparr>),
           (\<lparr>now = 12, fullYear = 2025\<rparr>, Cancel)]
          \<lparr>doc = \<lparr>inv_id = 1, inv_studentId = 7, inv_schoolId = 3, inv_amount = 1000,
                  inv_status = Unpaid, amountPaid = 250, balance = 0, dueDate = 50,
                  paidDate = None\<rparr>,
           stored = None, payments = []\<rparr>)
     = Some \<lparr>inv_id = 1, inv_studentId = 7, inv_schoolId = 3, inv_amount = 1000,
             inv_status = Unpaid, amountPaid = 250, balance = 750, dueDate = 50,
             paidDate = None\<rparr>"
    by (simp add: save_def cancel_def recordPayment_def Payment_create_def
          payment_defaults_def recordPayment_object_def payment_invalid_paths_def
          paymentMethods_def paymentStatuses_def invoice_invalid_paths_def isOverdue_def
          Let_def)
  show ?thesis
    by (rule conjI [OF h conjI [OF invoice_at_rest_invariant [OF h] e]])
qed

subsection \<open>Applying a payment\<close>

text \<open>
  The object that \<^verbatim>\<open>recordPayment\<close> hands to \<^verbatim>\<open>Payment.create\<close> has neither
  \<^verbatim>\<open>recordedBy\<close> nor \<^verbatim>\<open>paymentNumber\<close>, two required paths of the payment schema: the
  creation is refused, whatever the amount, the payment data and the stored payments.
\<close>

lemma recordPayment_object_rejected:
  "\<exists>paths. Payment_create c (recordPayment_object this a pd) ps = Inl (ValidationError paths)
     \<and> ''recordedBy'' \<in> set paths"
  by (auto simp: Payment_create_def recordPayment_object_def payment_defaults_def
        payment_invalid_paths_def Let_def split: list.splits option.splits)

lemma recordPayment_fails:
  "\<exists>e. recordPayment c a pd st = (Inl e, st)"
  using recordPayment_object_rejected [of c "doc st" a pd "payments st"]
  by (auto simp: recordPayment_def)

text \<open>
  The update block of \<^verbatim>\<open>recordPayment\<close> by itself computes what the scenario expects:
  400 on a principal of 1000 gives \<open>PartiallyPaid\<close> with balance 600, a further 600 gives
  \<open>Paid\<close> with balance 0 and the paid date.
\<close>

lemma recordPayment_update_scenario:
  "recordPayment_update \<lparr>now = 10, fullYear = 2025\<rparr> 400
     \<lparr>inv_id = 1, inv_studentId = 7, inv_schoolId = 3, inv_amount = 1000,
      inv_status = Unpaid, amountPaid = 0, balance = 1000, dueDate = 50, paidDate = None\<rparr>
   = \<lparr>inv_id = 1, inv_studentId = 7, inv_schoolId = 3, inv_amount = 1000,
      inv_status = PartiallyPaid, amountPaid = 400, balance = 600, dueDate = 50,
      paidDate = None\<rparr>"
  "recordPayment_update \<lparr>now = 20, fullYear = 2025\<rparr> 600
     \<lparr>inv_id = 1, inv_studentId = 7, inv_schoolId = 3, inv_amount = 1000,
      inv_status = PartiallyPaid, amountPaid = 400, balance = 600, dueDate = 50,
      paidDate = None\<rparr>
   = \<lparr>inv_id = 1, inv_studentId = 7, inv_schoolId = 3, inv_amount = 1000,
      inv_status = Paid, amountPaid = 1000, balance = 0, dueDate = 50,
      paidDate = Some 20\<rparr>"
  by (simp_all add: recordPayment_update_def)

lemma recordPayment_update_status:
  "inv_status (recordPayment_update c a d) =
     (if inv_amount d - (amountPaid d + a) \<le> 0 then Paid
      else if amountPaid d + a > 0 then PartiallyPaid
      else inv_status d)"
  "balance (recordPayment_update c a d) = inv_amount d - (amountPaid d + a)"
  "amountPaid (recordPayment_update c a d) = amountPaid d + a"
  by (simp_all add: recordPayment_update_def Let_def)

text \<open>
  Claim C3, evaluated on the code. The first payment of the scenario (principal 1000,
  unpaid, payment 400 in cash) does not reach the update block: \<^verbatim>\<open>Payment.create\<close> is
  refused for the missing paths, \<^verbatim>\<open>recordPayment\<close> fails, and the invoice stays unpaid
  with balance 1000 and no payment stored.
\<close>

theorem recordPayment_scenario_first_payment:
  "recordPayment \<lparr>now = 10, fullYear = 2025\<rparr> 400
     \<lparr>pd_paymentMethod = Some ''cash'', pd_reference = None, pd_notes = None\<rparr>
     \<lparr>doc = \<lparr>inv_id = 1, inv_studentId = 7, inv_schoolId = 3, inv_amount = 1000,
             inv_status = Unpaid, amountPaid = 0, balance = 1000, dueDate = 50,
             paidDate = None\<rparr>,
      stored = Some \<lparr>inv_id = 1, inv_studentId = 7, inv_schoolId = 3, inv_amount = 1000,
             inv_status = Unpaid, amountPaid = 0, balance = 1000, dueDate = 50,
             paidDate = None\<rparr>,
      payments = []\<rparr>
   = (Inl (ValidationError [''paymentNumber'', ''recordedBy'']),
      \<lparr>doc = \<lparr>inv_id = 1, inv_studentId = 7, inv_schoolId = 3, inv_amount = 1000,
             inv_status = Unpaid, amountPaid = 0, balance = 1000, dueDate = 50,
             paidDate = None\<rparr>,
       stored = Some \<lparr>inv_id = 1, inv_studentId = 7, inv_schoolId = 3, inv_amount = 1000,
             inv_status = Unpaid, amountPaid = 0, balance = 1000, dueDate = 50,
             paidDate = None\<rparr>,
       payments = []\<rparr>)"
  by (simp add: recordPayment_def Payment_create_def payment_defaults_def
        recordPayment_object_def payment_invalid_paths_def paymentMethods_def
        paymentStatuses_def)

subsection \<open>Refunds on a paid invoice\<close>

text \<open>
  Claim C4 as stated fails: on a paid invoice (principal 1000, paid 1000) a payment of
  -100 is refused with \<open>InvoiceAlreadyPaid\<close> and nothing changes.
\<close>

theorem refund_on_paid_invoice_counterexample:
  "recordPayment \<lparr>now = 30, fullYear = 2025\<rparr> (- 100)
     \<lparr>pd_paymentMethod = Some ''cash'', pd_reference = None, pd_notes = None\<rparr>
     \<lparr>doc = \<lparr>inv_id = 1, inv_studentId = 7, inv_schoolId = 3, inv_amount = 1000,
             inv_status = Paid, amountPaid = 1000, balance = 0, dueDate = 50,
             paidDate = Some 20\<rparr>,
      stored = Some \<lparr>inv_id = 1, inv_studentId = 7, inv_schoolId = 3, inv_amount = 1000,
             inv_status = Paid, amountPaid = 1000, balance = 0, dueDate = 50,
             paidDate = Some 20\<rparr>,
      payments = []\<rparr>
   = (Inl InvoiceAlreadyPaid,
      \<lparr>doc = \<lparr>inv_id = 1, inv_studentId = 7, inv_schoolId = 3, inv_amount = 1000,
             inv_status = Paid, amountPaid = 1000, balance = 0, dueDate = 50,
             paidDate = Some 20\<rparr>,
       stored = Some \<lparr>inv_id = 1, inv_studentId = 7, inv_schoolId = 3, inv_amount = 1000,
             inv_status = Paid, amountPaid = 1000, balance = 0, dueDate = 50,
             paidDate = Some 20\<rparr>,
       payments = []\<rparr>)"
  by (simp add: recordPayment_def)

text \<open>
  Claim C4 as amended. On every invoice in status \<open>Paid\<close>, a payment of any amount,
  negative ones included, is refused with \<open>InvoiceAlreadyPaid\<close>; the invoice in memory,
  the stored invoice and the payments are left as they were.
\<close>

theorem recordPayment_on_paid_rejected:
  "inv_status (doc st) = Paid \<Longrightarrow> recordPayment c a pd st = (Inl InvoiceAlreadyPaid, st)"
  by (simp add: recordPayment_def)

theorem recordPayment_on_paid_rejected_witness:
  "inv_status (doc \<lparr>doc = \<lparr>inv_id = 2, inv_studentId = 8, inv_schoolId = 3, inv_amount = 500,
             inv_status = Paid, amountPaid = 500, balance = 0, dueDate = 90,
             paidDate = Some 60\<rparr>, stored = None, payments = []\<rparr>) = Paid
   \<and> recordPayment \<lparr>now = 70, fullYear = 2025\<rparr> (- 500)
       \<lparr>pd_paymentMethod = Some ''bank_transfer'', pd_reference = None, pd_notes = None\<rparr>
       \<lparr>doc = \<lparr>inv_id = 2, inv_studentId = 8, inv_schoolId = 3, inv_amount = 500,
             inv_status = Paid, amountPaid = 500, balance = 0, dueDate = 90,
             paidDate = Some 60\<rparr>, stored = None, payments = []\<rparr>
     = (Inl InvoiceAlreadyPaid,
        \<lparr>doc = \<lparr>inv_id = 2, inv_studentId = 8, inv_schoolId = 3, inv_amount = 500,
             inv_status = Paid, amountPaid = 500, balance = 0, dueDate = 90,
             paidDate = Some 60\<rparr>, stored = None, payments = []\<rparr>)"
proof -
  have h: "inv_status (doc \<lparr>doc = \<lparr>inv_id = 2, inv_studentId = 8, inv_schoolId = 3,
             inv_amount = 500, inv_status = Paid, amountPaid = 500, balance = 0,
             dueDate = 90, paidDate = Some 60\<rparr>, stored = None, payments = []\<rparr>) = Paid"
    by simp
  show ?thesis
    using h recordPayment_on_paid_rejected [OF h] by simp
qed

section \<open>Properties of the membership ledger\<close>

subsection \<open>At most one active membership\<close>

lemmas scenario_defs = class_A_def class_B_def membership_def

lemma fresh_id_greater: "i \<in> set ids \<Longrightarrow> i < fresh_id ids"
proof -
  assume "i \<in> set ids"
  then have "i \<le> Max (set (0 # ids))" by (intro Max_ge) auto
  also have "Max (set (0 # ids)) = fold max ids 0" by (rule Max.set_eq_fold)
  finally show ?thesis by (simp add: fresh_id_def)
qed

lemma fresh_id_notin: "fresh_id ids \<notin> set ids"
  using fresh_id_greater by blast

lemma Enrollment_create_result:
  assumes "Enrollment_create c obj st = Inr (d, st')"
  shows "enrollments st' = enrollments st @ [d]"
    and "classes st' = classes st"
    and "attendances st' = attendances st"
    and "enr_id d = fresh_id (map enr_id (enrollments st))"
    and "\<not> violates_active_index d (enrollments st)"
  using assms
  by (auto simp: Enrollment_create_def Let_def split: option.splits if_splits prod.splits)

lemma Enrollment_create_ok:
  assumes "membership_ok (enrollments st)" "Enrollment_create c obj st = Inr (d, st')"
  shows "membership_ok (enrollments st')"
proof -
  note r = Enrollment_create_result [OF assms(2)]
  have id: "enr_id d \<notin> set (map enr_id (enrollments st))"
    using r(4) fresh_id_notin by metis
  have "enr_status d = Active \<Longrightarrow>
          enrollment_key d \<notin> enrollment_key ` {e \<in> set (enrollments st). enr_status e = Active}"
    using r(5) id by (auto simp: violates_active_index_def) (metis imageI)
  then show ?thesis
    using assms(1) id by (auto simp: membership_ok_def r(1))
qed

lemma replace_first_map:
  assumes "distinct (map enr_id es)"
  shows "replace_first (\<lambda>e. enr_id e = i) d es = map (\<lambda>e. if enr_id e = i then d else e) es"
  using assms
proof (induction es)
  case Nil
  then show ?case by simp
next
  case (Cons e es)
  show ?case
  proof (cases "enr_id e = i")
    case True
    then have "\<forall>x \<in> set es. enr_id x \<noteq> i"
      using Cons.prems by (auto simp: image_iff)
    then have "map (\<lambda>e. if enr_id e = i then d else e) es = es"
      by (intro map_idI) auto
    then show ?thesis using True by simp
  next
    case False
    then show ?thesis using Cons by simp
  qed
qed

lemma replace_keeps_ids:
  "enr_id d = i \<Longrightarrow> map enr_id (replace_first (\<lambda>e. enr_id e = i) d es) = map enr_id es"
  by (induction es) auto

lemma replace_unique_active:
  assumes "enr_id d = i"
    and "distinct (map enr_id es)"
    and "distinct (map enrollment_key (filter (\<lambda>e. enr_status e = Active) es))"
    and "\<not> violates_active_index d es"
  shows "distinct (map enrollment_key
           (filter (\<lambda>e. enr_status e = Active)
              (map (\<lambda>e. if enr_id e = i then d else e) es)))"
  using assms(2-4)
proof (induction es)
  case Nil
  then show ?case by simp
next
  case (Cons e es)
  let ?rep = "\<lambda>e. if enr_id e = i then d else e"
  have v: "\<not> violates_active_index d es"
    using Cons.prems(3) by (auto simp: violates_active_index_def)
  have tl: "distinct (map enrollment_key (filter (\<lambda>e. enr_status e = Active) es))"
    using Cons.prems(2) by (auto split: if_splits)
  have ids: "distinct (map enr_id es)"
    using Cons.prems(1) by simp
  have IH: "distinct (map enrollment_key (filter (\<lambda>e. enr_status e = Active) (map ?rep es)))"
    by (rule Cons.IH [OF ids tl v])
  show ?case
  proof (cases "enr_id e = i")
    case True
    then have other: "\<forall>x \<in> set es. enr_id x \<noteq> i"
      using Cons.prems(1) by (auto simp: image_iff)
    then have same: "map ?rep es = es"
      by (intro map_idI) auto
    have "enr_status d = Active \<Longrightarrow>
            enrollment_key d \<notin> set (map enrollment_key (filter (\<lambda>e. enr_status e = Active) es))"
      using v other assms(1) by (auto simp: violates_active_index_def)
    then show ?thesis
      using True same tl by simp
  next
    case False
    have "enr_status e = Active \<Longrightarrow>
            enrollment_key e \<notin> set (map enrollment_key
               (filter (\<lambda>e. enr_status e = Active) (map ?rep es)))"
    proof
      assume act: "enr_status e = Active"
        and "enrollment_key e \<in> set (map enrollment_key
               (filter (\<lambda>e. enr_status e = Active) (map ?rep es)))"
      then obtain x where x: "x \<in> set es" "enr_status (?rep x) = Active"
          "enrollment_key (?rep x) = enrollment_key e"
        by auto
      show False
      proof (cases "enr_id x = i")
        case True
        then have "enr_status d = Active" "enrollment_key d = enrollment_key e"
          using x by auto
        then have "violates_active_index d (e # es)"
          using act False assms(1) by (auto simp: violates_active_index_def)
        then show False using Cons.prems(3) by simp
      next
        case False
        then have "enr_status x = Active" "enrollment_key x = enrollment_key e"
          using x by auto
        then show False
          using x(1) act Cons.prems(2) by (auto simp: image_iff)
      qed
    qed
    then show ?thesis
      using False IH by simp
  qed
qed

lemma Enrollment_save_result:
  assumes "Enrollment_save c this st = Inr (d, st')"
  shows "enrollments st' = replace_first (\<lambda>e. enr_id e = enr_id this) d (enrollments st)"
    and "classes st' = classes st"
    and "attendances st' = attendances st"
    and "enr_id d = enr_id this"
    and "\<not> violates_active_index d (enrollments st)"
  using assms
  by (auto simp: Enrollment_save_def Let_def split: option.splits if_splits)

lemma Enrollment_save_ok:
  assumes "membership_ok (enrollments st)" "Enrollment_save c this st = Inr (d, st')"
  shows "membership_ok (enrollments st')"
proof -
  note r = Enrollment_save_result [OF assms(2)]
  have ids: "distinct (map enr_id (enrollments st))"
    using assms(1) by (simp add: membership_ok_def)
  have "distinct (map enr_id (enrollments st'))"
    using ids replace_keeps_ids [OF r(4)] by (simp only: r(1))
  moreover have "distinct (map enrollment_key
      (filter (\<lambda>e. enr_status e = Active) (enrollments st')))"
    unfolding r(1) replace_first_map [OF ids]
    by (rule replace_unique_active [OF r(4) _ _ r(5)])
       (use assms(1) in \<open>simp_all add: membership_ok_def\<close>)
  ultimately show ?thesis by (simp only: membership_ok_def)
qed

lemma transferTo_ok:
  assumes "membership_ok (enrollments st)"
  shows "membership_ok (enrollments (snd (transferTo c this k reason st)))"
  using assms
  by (auto simp: transferTo_def split: sum.splits option.splits prod.splits
           dest: Enrollment_save_ok Enrollment_create_ok)

lemma membership_step_ok:
  "membership_ok (enrollments st) \<Longrightarrow> membership_ok (enrollments (membership_step op st))"
  by (cases op; cases "snd op")
     (auto simp: transferTo_ok complete_def withdraw_def split: sum.splits prod.splits
           dest: Enrollment_save_ok Enrollment_create_ok)

lemma membership_fold_ok:
  "membership_ok (enrollments st) \<Longrightarrow> membership_ok (enrollments (fold membership_step ops st))"
  by (induction ops arbitrary: st) (simp_all add: membership_step_ok)

lemma Enrollment_create_conflict:
  assumes "e \<in> set (enrollments st)" "enr_status e = Active"
    and "eo_studentId obj = Some (enr_studentId e)"
    and "eo_classId obj = Some (enr_classId e)"
    and "eo_academicYear obj = Some (enr_academicYear e)"
    and "eo_status obj = None \<or> eo_status obj = Some Active"
  shows "\<exists>err. Enrollment_create c obj st = Inl err"
    and "enr_academicYear e \<noteq> [] \<Longrightarrow>
         map_option cls_academicYear (Class_findById (enr_classId e) (classes st))
           = Some (enr_academicYear e) \<Longrightarrow>
         Enrollment_create c obj st = Inl DuplicateKeyError"
proof -
  have neq: "fresh_id (map enr_id (enrollments st)) \<noteq> enr_id e"
    using assms(1) fresh_id_greater [of "enr_id e" "map enr_id (enrollments st)"] by auto
  show "\<exists>err. Enrollment_create c obj st = Inl err"
    using assms neq
    by (auto simp: Enrollment_create_def Let_def violates_active_index_def enrollment_key_def
             split: option.splits)
  show "enr_academicYear e \<noteq> [] \<Longrightarrow>
         map_option cls_academicYear (Class_findById (enr_classId e) (classes st))
           = Some (enr_academicYear e) \<Longrightarrow>
         Enrollment_create c obj st = Inl DuplicateKeyError"
    using assms neq
    by (auto simp: Enrollment_create_def Let_def violates_active_index_def enrollment_key_def
             split: option.splits)
qed

lemma distinct_count_le_1:
  "distinct (map f xs) \<Longrightarrow> length (filter (\<lambda>x. f x = k) xs) \<le> 1"
  by (induction xs) (auto simp: image_iff filter_empty_conv)

lemma membership_ok_count:
  assumes "membership_ok es"
  shows "length (filter (\<lambda>e. enr_status e = Active \<and> enrollment_key e = k) es) \<le> 1"
proof -
  have "filter (\<lambda>e. enr_status e = Active \<and> enrollment_key e = k) es
        = filter (\<lambda>e. enrollment_key e = k) (filter (\<lambda>e. enr_status e = Active) es)"
    by (simp add: conj_commute)
  then show ?thesis
    using assms distinct_count_le_1 [of enrollment_key "filter (\<lambda>e. enr_status e = Active) es" k]
    by (simp add: membership_ok_def)
qed

text \<open>
  Claim C2. From a sound collection, every sequence of creations, saves, transfers,
  completions and withdrawals leaves a sound collection: for every (student, class, year)
  at most one enrollment is active. Creating an enrollment (with status absent or
  active) for the key of a stored active enrollment fails and stores nothing; when the
  class exists with that academic year, so that the hooks pass, the failure is the
  duplicate key error of the partial unique index.
\<close>

theorem one_active_membership:
  assumes "membership_ok (enrollments st)"
  shows "membership_ok (enrollments (fold membership_step ops st))
       \<and> (\<forall>k. length (filter (\<lambda>e. enr_status e = Active \<and> enrollment_key e = k)
                        (enrollments (fold membership_step ops st))) \<le> 1)
       \<and> (\<forall>e \<in> set (enrollments st). \<forall>obj.
             enr_status e = Active \<and>
             eo_studentId obj = Some (enr_studentId e) \<and>
             eo_classId obj = Some (enr_classId e) \<and>
             eo_academicYear obj = Some (enr_academicYear e) \<and>
             (eo_status obj = None \<or> eo_status obj = Some Active) \<longrightarrow>
               (\<exists>err. Enrollment_create c obj st = Inl err) \<and>
               (enr_academicYear e \<noteq> [] \<and>
                map_option cls_academicYear (Class_findById (enr_classId e) (classes st))
                  = Some (enr_academicYear e) \<longrightarrow>
                Enrollment_create c obj st = Inl DuplicateKeyError))"
proof (intro conjI allI ballI impI)
  show ok: "membership_ok (enrollments (fold membership_step ops st))"
    by (rule membership_fold_ok [OF assms])
  show "length (filter (\<lambda>e. enr_status e = Active \<and> enrollment_key e = k)
                        (enrollments (fold membership_step ops st))) \<le> 1" for k
    by (rule membership_ok_count [OF ok])
next
  fix e and obj :: enrollment_object
  assume "e \<in> set (enrollments st)"
    and "enr_status e = Active \<and>
             eo_studentId obj = Some (enr_studentId e) \<and>
             eo_classId obj = Some (enr_classId e) \<and>
             eo_academicYear obj = Some (enr_academicYear e) \<and>
             (eo_status obj = None \<or> eo_status obj = Some Active)"
  then show "\<exists>err. Enrollment_create c obj st = Inl err"
    using Enrollment_create_conflict(1) by blast
next
  fix e and obj :: enrollment_object
  assume "e \<in> set (enrollments st)"
    and "enr_status e = Active \<and>
             eo_studentId obj = Some (enr_studentId e) \<and>
             eo_classId obj = Some (enr_classId e) \<and>
             eo_academicYear obj = Some (enr_academicYear e) \<and>
             (eo_status obj = None \<or> eo_status obj = Some Active)"
    and "enr_academicYear e \<noteq> [] \<and>
                map_option cls_academicYear (Class_findById (enr_classId e) (classes st))
                  = Some (enr_academicYear e)"
  then show "Enrollment_create c obj st = Inl DuplicateKeyError"
    using Enrollment_create_conflict(2) by blast
qed

theorem one_active_membership_witness:
  "membership_ok [membership 1 7 1 Active]
   \<and> membership_ok (enrollments (fold membership_step
        [(\<lparr>now = 10, fullYear = 2025\<rparr>,
          Create \<lparr>eo_studentId = Some 7, eo_classId = Some 1, eo_academicYear = Some ''2025'',
                  eo_enrollmentDate = None, eo_status = None\<rparr>),
         (\<lparr>now = 11, fullYear = 2025\<rparr>, TransferTo (membership 1 7 1 Active) 2 None)]
        \<lparr>classes = [class_A, class_B], enrollments = [membership 1 7 1 Active],
         attendances = []\<rparr>))
   \<and> Enrollment_create \<lparr>now = 10, fullYear = 2025\<rparr>
        \<lparr>eo_studentId = Some 7, eo_classId = Some 1, eo_academicYear = Some ''2025'',
         eo_enrollmentDate = None, eo_status = None\<rparr>
        \<lparr>classes = [class_A, class_B], enrollments = [membership 1 7 1 Active],
         attendances = []\<rparr>
      = Inl DuplicateKeyError"
proof -
  let ?st = "\<lparr>classes = [class_A, class_B], enrollments = [membership 1 7 1 Active],
         attendances = []\<rparr>"
  have h: "membership_ok (enrollments ?st)"
    by (simp add: membership_ok_def)
  note t = one_active_membership [OF h, of _ "\<lparr>now = 10, fullYear = 2025\<rparr>"]
  have a: "membership_ok (enrollments (fold membership_step
        [(\<lparr>now = 10, fullYear = 2025\<rparr>,
          Create \<lparr>eo_studentId = Some 7, eo_classId = Some 1, eo_academicYear = Some ''2025'',
                  eo_enrollmentDate = None, eo_status = None\<rparr>),
         (\<lparr>now = 11, fullYear = 2025\<rparr>, TransferTo (membership 1 7 1 Active) 2 None)] ?st))"
    using t by (rule conjunct1)
  have b: "Enrollment_create \<lparr>now = 10, fullYear = 2025\<rparr>
        \<lparr>eo_studentId = Some 7, eo_classId = Some 1, eo_academicYear = Some ''2025'',
         eo_enrollmentDate = None, eo_status = None\<rparr> ?st = Inl DuplicateKeyError"
    using t [of "[]"]
    by (simp add: scenario_defs Class_findById_def)
  show ?thesis
    using h a b by simp
qed

subsection \<open>Transfer\<close>

lemma transferTo_first_write:
  assumes "find (\<lambda>e. enr_id e = enr_id this) (enrollments st) = Some this"
    and "enr_academicYear this \<noteq> []"
  shows "Enrollment_save c (marked_transferred c this k reason) st =
           Inr (marked_transferred c this k reason,
                st\<lparr>enrollments := replace_enrollment (marked_transferred c this k reason)
                                     (enrollments st)\<rparr>)"
  using assms
  by (auto simp: Enrollment_save_def marked_transferred_def replace_enrollment_def
        violates_active_index_def Let_def)

lemma transferTo_unfold:
  assumes "find (\<lambda>e. enr_id e = enr_id this) (enrollments st) = Some this"
    and "enr_academicYear this \<noteq> []"
  shows "transferTo c this k reason st =
     (let st1 = st\<lparr>enrollments := replace_enrollment (marked_transferred c this k reason)
                                     (enrollments st)\<rparr>
      in case Class_findById k (classes st) of
           None \<Rightarrow> (Inl TargetClassNotFound, st1)
         | Some newClass \<Rightarrow>
             (case Enrollment_create c
                     \<lparr>eo_studentId = Some (enr_studentId this),
                      eo_classId = Some k,
                      eo_academicYear = Some (cls_academicYear newClass),
                      eo_enrollmentDate = Some (now c),
                      eo_status = Some Active\<rparr> st1 of
                Inl e \<Rightarrow> (Inl e, st1)
              | Inr (newEnrollment, st2) \<Rightarrow> (Inr newEnrollment, st2)))"
  using transferTo_first_write [OF assms, of c k reason]
  by (simp add: transferTo_def marked_transferred_def Let_def)

lemma Enrollment_create_fields:
  assumes "Enrollment_create c obj st = Inr (d, st')"
  shows "eo_studentId obj = Some (enr_studentId d)"
    and "eo_classId obj = Some (enr_classId d)"
    and "eo_academicYear obj = Some (enr_academicYear d)"
    and "enr_status d = (case eo_status obj of None \<Rightarrow> Active | Some s \<Rightarrow> s)"
    and "map_option cls_academicYear (Class_findById (enr_classId d) (classes st))
           = Some (enr_academicYear d)"
  using assms
  by (auto simp: Enrollment_create_def Let_def split: option.splits if_splits prod.splits)

lemmas transfer_eval = transferTo_def Enrollment_save_def Enrollment_create_def
  Class_findById_def violates_active_index_def enrollment_key_def fresh_id_def
  enrollment_object_invalid_paths_def scenario_defs replace_enrollment_def
  marked_transferred_def Let_def

lemma find_replace_enrollment:
  assumes "find (\<lambda>e. enr_id e = i) es = Some this" and "enr_id d = i"
  shows "find (\<lambda>e. enr_id e = i) (replace_enrollment d es @ ys) = Some d"
  using assms
  by (induction es) (auto simp: replace_enrollment_def split: if_splits)

lemma length_replace_first [simp]: "length (replace_first P d rs) = length rs"
  by (induction rs) auto

text \<open>
  Claim C5 as stated fails: \<^verbatim>\<open>transferTo\<close> has no check of the source status. On a
  membership that is already transferred it succeeds and a new active membership is
  created; on a withdrawn one it succeeds as well and the stored status changes to
  transferred.
\<close>

theorem transfer_non_active_counterexample:
  "transferTo \<lparr>now = 20, fullYear = 2025\<rparr>
     ((membership 1 7 1 Transferred)
        \<lparr>statusChangeDate := Some 10, statusChangeReason := Some ''moved'',
         transferredToClassId := Some 2\<rparr>)
     2 (Some ''again'')
     \<lparr>classes = [class_A, class_B],
      enrollments = [(membership 1 7 1 Transferred)
        \<lparr>statusChangeDate := Some 10, statusChangeReason := Some ''moved'',
         transferredToClassId := Some 2\<rparr>],
      attendances = []\<rparr>
   = (Inr ((membership 2 7 2 Active)\<lparr>enrollmentDate := 20, statusChangeDate := Some 20\<rparr>),
      \<lparr>classes = [class_A, class_B],
       enrollments =
         [(membership 1 7 1 Transferred)
            \<lparr>statusChangeDate := Some 20, statusChangeReason := Some ''again'',
             transferredToClassId := Some 2\<rparr>,
          (membership 2 7 2 Active)\<lparr>enrollmentDate := 20, statusChangeDate := Some 20\<rparr>],
       attendances = []\<rparr>)
   \<and> transferTo \<lparr>now = 20, fullYear = 2025\<rparr> (membership 1 7 1 Withdrawn) 2 None
       \<lparr>classes = [class_A, class_B], enrollments = [membership 1 7 1 Withdrawn],
        attendances = []\<rparr>
     = (Inr ((membership 2 7 2 Active)\<lparr>enrollmentDate := 20, statusChangeDate := Some 20\<rparr>),
        \<lparr>classes = [class_A, class_B],
         enrollments =
           [(membership 1 7 1 Transferred)
              \<lparr>statusChangeDate := Some 20, transferredToClassId := Some 2\<rparr>,
            (membership 2 7 2 Active)\<lparr>enrollmentDate := 20, statusChangeDate := Some 20\<rparr>],
         attendances = []\<rparr>)"
  by (simp add: transfer_eval)

text \<open>
  Claim C5 as amended. \<^verbatim>\<open>transferTo\<close> does not look at the status of the source: for a
  stored membership of any status, when the target class exists and the student has no
  other active membership on it, the call succeeds, the source is stored as transferred
  (target class, instant and reason recorded) and one new active membership of the same
  student on the target class is stored.
\<close>

theorem transferTo_any_status:
  assumes "find (\<lambda>e. enr_id e = enr_id this) (enrollments st) = Some this"
    and "distinct (map enr_id (enrollments st))"
    and "enr_academicYear this \<noteq> []"
    and "Class_findById newClassId (classes st) = Some newClass"
    and "cls_academicYear newClass \<noteq> []"
    and "\<forall>e \<in> set (enrollments st). enr_id e \<noteq> enr_id this \<longrightarrow>
           \<not> (enr_status e = Active \<and>
              enrollment_key e = (enr_studentId this, newClassId, cls_academicYear newClass))"
  shows "\<exists>new st'. transferTo c this newClassId reason st = (Inr new, st')
           \<and> enr_status new = Active
           \<and> enr_classId new = newClassId
           \<and> enr_studentId new = enr_studentId this
           \<and> new \<in> set (enrollments st')
           \<and> enr_id new \<notin> set (map enr_id (enrollments st))
           \<and> length (enrollments st') = Suc (length (enrollments st))
           \<and> find (\<lambda>e. enr_id e = enr_id this) (enrollments st')
               = Some (this\<lparr>enr_status := Transferred,
                            transferredToClassId := Some newClassId,
                            statusChangeDate := Some (now c),
                            statusChangeReason := reason\<rparr>)"
proof -
  let ?d = "marked_transferred c this newClassId reason"
  let ?st1 = "st\<lparr>enrollments := replace_enrollment ?d (enrollments st)\<rparr>"
  let ?obj = "\<lparr>eo_studentId = Some (enr_studentId this),
                      eo_classId = Some newClassId,
                      eo_academicYear = Some (cls_academicYear newClass),
                      eo_enrollmentDate = Some (now c),
                      eo_status = Some Active\<rparr>"
  have "replace_enrollment ?d (enrollments st)
          = map (\<lambda>e. if enr_id e = enr_id this then ?d else e) (enrollments st)"
    using replace_first_map [OF assms(2), of "enr_id this" ?d]
    by (simp add: replace_enrollment_def marked_transferred_def)
  then have noconf: "\<not> (\<exists>e \<in> set (enrollments ?st1). enr_status e = Active \<and>
           enrollment_key e = (enr_studentId this, newClassId, cls_academicYear newClass))"
    using assms(6) by (auto simp: marked_transferred_def)
  then have "\<exists>new st2. Enrollment_create c ?obj ?st1 = Inr (new, st2)"
    using assms(4,5)
    by (auto simp: Enrollment_create_def Let_def violates_active_index_def enrollment_key_def)
  then obtain new st2 where cr: "Enrollment_create c ?obj ?st1 = Inr (new, st2)"
    by blast
  note r = Enrollment_create_result [OF cr]
  note f = Enrollment_create_fields [OF cr]
  have ids: "map enr_id (enrollments ?st1) = map enr_id (enrollments st)"
    by (simp add: replace_enrollment_def replace_keeps_ids marked_transferred_def)
  have fresh: "enr_id new \<notin> set (map enr_id (enrollments st))"
    using r(4) ids fresh_id_notin by metis
  have len: "length (enrollments st2) = Suc (length (enrollments st))"
    by (simp add: r(1) replace_enrollment_def)
  have src: "find (\<lambda>e. enr_id e = enr_id this) (enrollments st2) = Some ?d"
    unfolding r(1)
    by (simp add: find_replace_enrollment [OF assms(1)] marked_transferred_def)
  have "transferTo c this newClassId reason st = (Inr new, st2)"
    using assms(4) cr by (simp add: transferTo_unfold [OF assms(1,3)] Let_def)
  then show ?thesis
    using r(1) f fresh len src by (simp add: marked_transferred_def)
qed

theorem transferTo_any_status_witness:
  "find (\<lambda>e. enr_id e = enr_id (membership 4 9 1 Completed))
        (enrollments \<lparr>classes = [class_A, class_B],
                      enrollments = [membership 4 9 1 Completed], attendances = []\<rparr>)
     = Some (membership 4 9 1 Completed)
   \<and> distinct (map enr_id (enrollments \<lparr>classes = [class_A, class_B],
                      enrollments = [membership 4 9 1 Completed], attendances = []\<rparr>))
   \<and> enr_academicYear (membership 4 9 1 Completed) \<noteq> []
   \<and> Class_findById 2 (classes \<lparr>classes = [class_A, class_B],
                      enrollments = [membership 4 9 1 Completed], attendances = []\<rparr>)
       = Some class_B
   \<and> cls_academicYear class_B \<noteq> []
   \<and> (\<exists>new st'.
         transferTo \<lparr>now = 30, fullYear = 2025\<rparr> (membership 4 9 1 Completed) 2 None
           \<lparr>classes = [class_A, class_B],
            enrollments = [membership 4 9 1 Completed], attendances = []\<rparr> = (Inr new, st')
         \<and> enr_status new = Active \<and> enr_classId new = 2 \<and> enr_studentId new = 9
         \<and> new \<in> set (enrollments st')
         \<and> find (\<lambda>e. enr_id e = 4) (enrollments st')
             = Some ((membership 4 9 1 Transferred)
                       \<lparr>statusChangeDate := Some 30, transferredToClassId := Some 2\<rparr>))"
proof -
  let ?src = "membership 4 9 1 Completed"
  let ?st = "\<lparr>classes = [class_A, class_B],
                      enrollments = [membership 4 9 1 Completed], attendances = []\<rparr>"
  have h1: "find (\<lambda>e. enr_id e = enr_id ?src) (enrollments ?st) = Some ?src"
    by simp
  have hd: "distinct (map enr_id (enrollments ?st))"
    by simp
  have h2: "enr_academicYear ?src \<noteq> []"
    by (simp add: scenario_defs)
  have h3: "Class_findById 2 (classes ?st) = Some class_B"
    by (simp add: scenario_defs Class_findById_def)
  have h4: "cls_academicYear class_B \<noteq> []"
    by (simp add: scenario_defs)
  have h5: "\<forall>e \<in> set (enrollments ?st). enr_id e \<noteq> enr_id ?src \<longrightarrow>
           \<not> (enr_status e = Active \<and>
              enrollment_key e = (enr_studentId ?src, 2, cls_academicYear class_B))"
    by simp
  from transferTo_any_status [OF h1 hd h2 h3 h4 h5, of "\<lparr>now = 30, fullYear = 2025\<rparr>" None]
  obtain new st' where
    t: "transferTo \<lparr>now = 30, fullYear = 2025\<rparr> ?src 2 None ?st = (Inr new, st')"
      "enr_status new = Active" "enr_classId new = 2" "enr_studentId new = enr_studentId ?src"
      "new \<in> set (enrollments st')"
      "find (\<lambda>e. enr_id e = enr_id ?src) (enrollments st')
         = Some (?src\<lparr>enr_status := Transferred, transferredToClassId := Some 2,
                      statusChangeDate := Some (now \<lparr>now = 30, fullYear = 2025\<rparr>),
                      statusChangeReason := None\<rparr>)"
    by blast
  have "\<exists>new st'.
         transferTo \<lparr>now = 30, fullYear = 2025\<rparr> ?src 2 None ?st = (Inr new, st')
         \<and> enr_status new = Active \<and> enr_classId new = 2 \<and> enr_studentId new = 9
         \<and> new \<in> set (enrollments st')
         \<and> find (\<lambda>e. enr_id e = 4) (enrollments st')
             = Some ((membership 4 9 1 Transferred)
                       \<lparr>statusChangeDate := Some 30, transferredToClassId := Some 2\<rparr>)"
    using t by (intro exI [of _ new] exI [of _ st']) (simp add: scenario_defs)
  then show ?thesis
    using h1 hd h2 h3 h4 by blast
qed

text \<open>
  Claim C6 as stated fails on the two writes. A transfer to a class that does not exist
  fails after the source was saved: the source stays transferred, nothing is rolled back
  and the student has no active membership. The retry (the class exists by then) writes
  the source again, with a later instant of change, before it creates the successor.
\<close>

theorem transfer_not_atomic_counterexample:
  "transferTo \<lparr>now = 10, fullYear = 2025\<rparr> (membership 1 7 1 Active) 2 (Some ''moving'')
     \<lparr>classes = [class_A], enrollments = [membership 1 7 1 Active], attendances = []\<rparr>
   = (Inl TargetClassNotFound,
      \<lparr>classes = [class_A],
       enrollments = [(membership 1 7 1 Transferred)
          \<lparr>statusChangeDate := Some 10, statusChangeReason := Some ''moving'',
           transferredToClassId := Some 2\<rparr>],
       attendances = []\<rparr>)
   \<and> transferTo \<lparr>now = 20, fullYear = 2025\<rparr>
       ((membership 1 7 1 Transferred)
          \<lparr>statusChangeDate := Some 10, statusChangeReason := Some ''moving'',
           transferredToClassId := Some 2\<rparr>)
       2 (Some ''moving'')
       \<lparr>classes = [class_A, class_B],
        enrollments = [(membership 1 7 1 Transferred)
          \<lparr>statusChangeDate := Some 10, statusChangeReason := Some ''moving'',
           transferredToClassId := Some 2\<rparr>],
        attendances = []\<rparr>
     = (Inr ((membership 2 7 2 Active)\<lparr>enrollmentDate := 20, statusChangeDate := Some 20\<rparr>),
        \<lparr>classes = [class_A, class_B],
         enrollments =
           [(membership 1 7 1 Transferred)
              \<lparr>statusChangeDate := Some 20, statusChangeReason := Some ''moving'',
               transferredToClassId := Some 2\<rparr>,
            (membership 2 7 2 Active)\<lparr>enrollmentDate := 20, statusChangeDate := Some 20\<rparr>],
         attendances = []\<rparr>)"
  by (simp add: transfer_eval)

text \<open>
  Claim C6 as amended. For a stored source, \<^verbatim>\<open>transferTo\<close> always stores the source as
  transferred, with the reason, the instant and the id of the target class (the link is
  to the class, not to the new membership). When the call succeeds, exactly one
  membership is added: active, of the same student, on the target class, with the
  academic year of the target class and a new id. When the second write fails, nothing
  is added and the source stays transferred: the two writes are not one unit.
\<close>

theorem transferTo_two_writes:
  assumes "find (\<lambda>e. enr_id e = enr_id this) (enrollments st) = Some this"
    and "enr_academicYear this \<noteq> []"
  shows "case transferTo c this newClassId reason st of
           (Inr new, st') \<Rightarrow>
              enrollments st' =
                replace_enrollment (marked_transferred c this newClassId reason) (enrollments st)
                  @ [new]
              \<and> enr_status new = Active
              \<and> enr_studentId new = enr_studentId this
              \<and> enr_classId new = newClassId
              \<and> map_option cls_academicYear (Class_findById newClassId (classes st))
                  = Some (enr_academicYear new)
              \<and> enr_id new \<notin> set (map enr_id (enrollments st))
         | (Inl err, st') \<Rightarrow>
              enrollments st' =
                replace_enrollment (marked_transferred c this newClassId reason) (enrollments st)"
proof -
  let ?d = "marked_transferred c this newClassId reason"
  let ?st1 = "st\<lparr>enrollments := replace_enrollment ?d (enrollments st)\<rparr>"
  have ids: "map enr_id (enrollments ?st1) = map enr_id (enrollments st)"
    by (simp add: replace_enrollment_def replace_keeps_ids)
  show ?thesis
  proof (cases "Class_findById newClassId (classes st)")
    case None
    then show ?thesis
      by (simp add: transferTo_unfold [OF assms] Let_def)
  next
    case (Some newClass)
    let ?obj = "\<lparr>eo_studentId = Some (enr_studentId this),
                      eo_classId = Some newClassId,
                      eo_academicYear = Some (cls_academicYear newClass),
                      eo_enrollmentDate = Some (now c),
                      eo_status = Some Active\<rparr>"
    show ?thesis
    proof (cases "Enrollment_create c ?obj ?st1")
      case (Inl e)
      then show ?thesis
        using Some by (simp add: transferTo_unfold [OF assms] Let_def)
    next
      case (Inr r)
      obtain new st2 where r: "r = (new, st2)" by (cases r)
      note cr = Enrollment_create_result [OF Inr [unfolded r]]
      note cf = Enrollment_create_fields [OF Inr [unfolded r]]
      have "enr_id new \<notin> set (map enr_id (enrollments st))"
        using cr(4) ids fresh_id_notin by metis
      then show ?thesis
        using Some Inr r cr(1) cf
        by (simp add: transferTo_unfold [OF assms] Let_def)
    qed
  qed
qed

theorem transferTo_two_writes_witness:
  "find (\<lambda>e. enr_id e = enr_id (membership 1 7 1 Active))
        (enrollments \<lparr>classes = [class_A, class_B],
                      enrollments = [membership 1 7 1 Active], attendances = []\<rparr>)
     = Some (membership 1 7 1 Active)
   \<and> enr_academicYear (membership 1 7 1 Active) \<noteq> []
   \<and> (case transferTo \<lparr>now = 10, fullYear = 2025\<rparr> (membership 1 7 1 Active) 2 (Some ''moving'')
              \<lparr>classes = [class_A, class_B],
               enrollments = [membership 1 7 1 Active], attendances = []\<rparr> of
         (Inr new, st') \<Rightarrow>
            enrollments st' =
              replace_enrollment
                (marked_transferred \<lparr>now = 10, fullYear = 2025\<rparr> (membership 1 7 1 Active) 2
                   (Some ''moving''))
                [membership 1 7 1 Active] @ [new]
            \<and> enr_status new = Active
       | (Inl err, st') \<Rightarrow> False)"
proof -
  let ?src = "membership 1 7 1 Active"
  let ?st = "\<lparr>classes = [class_A, class_B],
                      enrollments = [membership 1 7 1 Active], attendances = []\<rparr>"
  have h1: "find (\<lambda>e. enr_id e = enr_id ?src) (enrollments ?st) = Some ?src"
    by simp
  have h2: "enr_academicYear ?src \<noteq> []"
    by (simp add: scenario_defs)
  have ok: "\<exists>new st'. transferTo \<lparr>now = 10, fullYear = 2025\<rparr> ?src 2 (Some ''moving'') ?st
              = (Inr new, st')"
    by (simp add: transfer_eval)
  show ?thesis
    using h1 h2 ok
      transferTo_two_writes [OF h1 h2, of "\<lparr>now = 10, fullYear = 2025\<rparr>" 2 "Some ''moving''"]
    by (auto split: sum.splits prod.splits)
qed


section \<open>Properties of the presence ledger\<close>

subsection \<open>The upsert of \<^verbatim>\<open>bulkWrite\<close>\<close>

lemma matches_key: "matches op r \<longleftrightarrow> att_key r = op_key op"
  by (auto simp: matches_def att_key_def op_key_def)

lemma att_key_apply_set [simp]: "att_key (apply_set c op r) = att_key r"
  by (simp add: att_key_def apply_set_def)

lemma att_key_upsert_doc [simp]: "att_key (upsert_doc c i op) = op_key op"
  by (simp add: att_key_def upsert_doc_def op_key_def)

lemma apply_set_absorb [simp]: "apply_set c op (apply_set c' op' r) = apply_set c op r"
  by (simp add: apply_set_def)

lemma apply_set_upsert_doc [simp]: "apply_set c op (upsert_doc c i op) = upsert_doc c i op"
  by (simp add: apply_set_def upsert_doc_def)

lemma keys_update_first [simp]: "map att_key (update_first c op rs) = map att_key rs"
  by (induction rs) auto

lemma ids_update_first [simp]: "map att_id (update_first c op rs) = map att_id rs"
  by (induction rs) (auto simp: apply_set_def)

lemma upsert_present:
  "op_key op \<in> set (map att_key rs) \<Longrightarrow> updateOne_upsert c op rs = update_first c op rs"
  by (auto simp: updateOne_upsert_def matches_key)

lemma upsert_absent:
  "op_key op \<notin> set (map att_key rs) \<Longrightarrow>
     updateOne_upsert c op rs = rs @ [upsert_doc c (fresh_id (map att_id rs)) op]"
  by (auto simp: updateOne_upsert_def matches_key image_iff)

lemma keys_upsert:
  "set (map att_key (updateOne_upsert c op rs)) = insert (op_key op) (set (map att_key rs))"
  by (cases "op_key op \<in> set (map att_key rs)")
     (auto simp: upsert_present upsert_absent simp del: set_map)

lemma update_first_same_key:
  "op_key op = op_key op' \<Longrightarrow>
     update_first c op (update_first c' op' rs) = update_first c op rs"
  by (induction rs) (auto simp: matches_key)

lemma update_first_commute:
  "op_key op \<noteq> op_key op' \<Longrightarrow>
     update_first c op (update_first c' op' rs) = update_first c' op' (update_first c op rs)"
  by (induction rs) (auto simp: matches_key)

lemma update_first_append_present:
  "op_key op \<in> set (map att_key rs) \<Longrightarrow>
     update_first c op (rs @ ys) = update_first c op rs @ ys"
  by (induction rs) (auto simp: matches_key)

lemma update_first_append_absent:
  "op_key op \<notin> set (map att_key rs) \<Longrightarrow>
     update_first c op (rs @ ys) = rs @ update_first c op ys"
  by (induction rs) (auto simp: matches_key)

lemma update_first_idem: "update_first c op (update_first c op rs) = update_first c op rs"
  by (simp add: update_first_same_key)

lemma upsert_idem: "update_first c op (updateOne_upsert c op rs) = updateOne_upsert c op rs"
  by (cases "op_key op \<in> set (map att_key rs)")
     (simp_all add: upsert_present upsert_absent update_first_idem update_first_append_absent
        matches_key)

lemma keys_fold_upsert:
  "set (map att_key (fold (updateOne_upsert c) ops rs))
     = set (map op_key ops) \<union> set (map att_key rs)"
  by (induction ops arbitrary: rs) (auto simp: keys_upsert simp del: set_map)

lemma keys_fold_update_first [simp]:
  "map att_key (fold (update_first c) ops rs) = map att_key rs"
  by (induction ops arbitrary: rs) auto

lemma fold_upsert_present:
  "set (map op_key ops) \<subseteq> set (map att_key rs) \<Longrightarrow>
     fold (updateOne_upsert c) ops rs = fold (update_first c) ops rs"
  by (induction ops arbitrary: rs) (auto simp: upsert_present simp del: set_map)

lemma fold_update_append:
  "set (map op_key ops) \<subseteq> set (map att_key rs) \<Longrightarrow>
     fold (update_first c) ops (rs @ ys) = fold (update_first c) ops rs @ ys"
  by (induction ops arbitrary: rs) (auto simp: update_first_append_present simp del: set_map)

lemma fold_update_absorb:
  "op_key op = op_key op' \<Longrightarrow>
     update_first c op (fold (update_first c) ops (update_first c op' rs))
       = update_first c op (fold (update_first c) ops rs)"
proof (induction ops arbitrary: rs)
  case Nil
  then show ?case by (simp add: update_first_same_key)
next
  case (Cons p ps)
  show ?case
  proof (cases "op_key p = op_key op'")
    case True
    then show ?thesis by (simp add: update_first_same_key)
  next
    case False
    then show ?thesis
      using Cons.IH [OF Cons.prems, of "update_first c p rs"]
      by (simp add: update_first_commute)
  qed
qed

lemma fold_update_after_upsert:
  "fold (update_first c) ops (fold (updateOne_upsert c) ops rs)
     = fold (updateOne_upsert c) ops rs"
proof (induction ops arbitrary: rs rule: rev_induct)
  case Nil
  then show ?case by simp
next
  case (snoc op ops)
  let ?t = "fold (updateOne_upsert c) ops rs"
  have IH: "fold (update_first c) ops ?t = ?t" by (rule snoc.IH)
  have "update_first c op (fold (update_first c) ops (updateOne_upsert c op ?t))
          = updateOne_upsert c op ?t"
  proof (cases "op_key op \<in> set (map att_key ?t)")
    case True
    then show ?thesis
      by (simp add: upsert_present fold_update_absorb IH)
  next
    case False
    have sub: "set (map op_key ops) \<subseteq> set (map att_key ?t)"
      by (simp add: keys_fold_upsert del: set_map)
    show ?thesis
      using False
      by (simp add: upsert_absent fold_update_append [OF sub] IH update_first_append_absent)
  qed
  then show ?case by simp
qed

lemma fold_upsert_idem:
  "fold (updateOne_upsert c) ops (fold (updateOne_upsert c) ops rs)
     = fold (updateOne_upsert c) ops rs"
proof -
  have "set (map op_key ops) \<subseteq> set (map att_key (fold (updateOne_upsert c) ops rs))"
    by (simp add: keys_fold_upsert del: set_map)
  then show ?thesis
    by (simp add: fold_upsert_present fold_update_after_upsert)
qed

text \<open>
  Two updates of the same operation at two instants differ in \<^verbatim>\<open>updatedAt\<close> only, so a
  replay at a later instant leaves every other field as the first marking left it.
\<close>

lemma att_key_except_updatedAt:
  "except_updatedAt r = except_updatedAt r' \<Longrightarrow> att_key r = att_key r'"
proof -
  assume "except_updatedAt r = except_updatedAt r'"
  then have "att_key (except_updatedAt r) = att_key (except_updatedAt r')" by simp
  then show ?thesis by (simp add: att_key_def except_updatedAt_def)
qed

lemma except_updatedAt_apply_set:
  "except_updatedAt r = except_updatedAt r' \<Longrightarrow>
     except_updatedAt (apply_set c op r) = except_updatedAt (apply_set c' op r')"
proof -
  assume "except_updatedAt r = except_updatedAt r'"
  then have "apply_set c op (except_updatedAt r) = apply_set c op (except_updatedAt r')"
    by simp
  then show ?thesis by (simp add: apply_set_def except_updatedAt_def)
qed

lemma except_updatedAt_update_first:
  "map except_updatedAt rs = map except_updatedAt rs' \<Longrightarrow>
     map except_updatedAt (update_first c op rs) = map except_updatedAt (update_first c' op rs')"
proof (induction rs arbitrary: rs')
  case Nil
  then show ?case by simp
next
  case (Cons r rs)
  then obtain r' ys where rs': "rs' = r' # ys"
    and r: "except_updatedAt r = except_updatedAt r'"
    and ys: "map except_updatedAt rs = map except_updatedAt ys"
    by (cases rs') auto
  have "matches op r \<longleftrightarrow> matches op r'"
    using att_key_except_updatedAt [OF r] by (simp add: matches_key)
  then show ?case
    using Cons.IH [OF ys] r ys except_updatedAt_apply_set [OF r, of c op c']
    by (simp add: rs')
qed

lemma except_updatedAt_fold_update_first:
  "map except_updatedAt rs = map except_updatedAt rs' \<Longrightarrow>
     map except_updatedAt (fold (update_first c) ops rs)
       = map except_updatedAt (fold (update_first c') ops rs')"
proof (induction ops arbitrary: rs rs')
  case Nil
  then show ?case by simp
next
  case (Cons op ops)
  show ?case
    using Cons.IH [OF except_updatedAt_update_first [OF Cons.prems, of c op c']] by simp
qed

lemma fold_upsert_replay:
  "map except_updatedAt
     (fold (updateOne_upsert c') ops (fold (updateOne_upsert c) ops rs))
     = map except_updatedAt (fold (updateOne_upsert c) ops rs)"
proof -
  let ?t = "fold (updateOne_upsert c) ops rs"
  have sub: "set (map op_key ops) \<subseteq> set (map att_key ?t)"
    by (simp add: keys_fold_upsert del: set_map)
  have "map except_updatedAt (fold (updateOne_upsert c') ops ?t)
          = map except_updatedAt (fold (update_first c') ops ?t)"
    by (simp only: fold_upsert_present [OF sub])
  also have "\<dots> = map except_updatedAt (fold (update_first c) ops ?t)"
    by (rule except_updatedAt_fold_update_first) simp
  also have "\<dots> = map except_updatedAt ?t"
    by (simp only: fold_update_after_upsert)
  finally show ?thesis .
qed

lemma distinct_upsert:
  "distinct (map att_key rs) \<Longrightarrow> distinct (map att_key (updateOne_upsert c op rs))"
  by (cases "op_key op \<in> set (map att_key rs)")
     (simp_all add: upsert_present upsert_absent)

lemma distinct_fold_upsert:
  "distinct (map att_key rs) \<Longrightarrow> distinct (map att_key (fold (updateOne_upsert c) ops rs))"
  by (induction ops arbitrary: rs) (simp_all add: distinct_upsert)

lemma snd_fold_bulk_step:
  "snd (fold (bulk_step c) ops (res, rs)) = fold (updateOne_upsert c) ops rs"
  by (induction ops arbitrary: res rs) (auto simp: bulk_step_def split: option.splits)

lemma snd_bulkWrite: "snd (bulkWrite c ops rs) = fold (updateOne_upsert c) ops rs"
  by (simp add: bulkWrite_def snd_fold_bulk_step)

subsection \<open>Marking a class: the model's static\<close>

lemma Attendance_markClassAttendance_state:
  "snd (Attendance_markClassAttendance c classId date records actor st) =
     (case Class_findById classId (classes st) of
        None \<Rightarrow> st
      | Some classDoc \<Rightarrow>
          st\<lparr>attendances :=
               fold (updateOne_upsert c)
                 (map (attendance_operation classId (startOfDay date) actor
                         (cls_academicYear classDoc)) records)
                 (attendances st)\<rparr>)"
  by (simp add: Attendance_markClassAttendance_def Let_def snd_bulkWrite split: option.splits)

lemmas attendance_eval = Attendance_markClassAttendance_def
  Class_findOne_def Class_findById_def findActiveByClass_def bulkWrite_def bulk_step_def
  updateOne_upsert_def upsert_doc_def apply_set_def matches_def attendance_operation_def
  startOfDay_def fresh_id_def trim_def group_G_def teacher_def student_def marked_def
  morning_def noon_def scenario_defs Let_def

text \<open>
  The scenario on the static: the first marking inserts two documents, a replay at noon
  matches both and changes their \<^verbatim>\<open>updatedAt\<close> only, which counts as two modifications.
\<close>

lemma Attendance_markClassAttendance_scenario:
  "Attendance_markClassAttendance morning 1 1736935200000
     [student 101 ''present'', student 102 ''absent''] 50 group_G
   = (Inr \<lparr>upsertedCount = 2, modifiedCount = 0\<rparr>,
      group_G\<lparr>attendances :=
        [marked 1 101 ''present'' 1736928000000 1736928000000,
         marked 2 102 ''absent'' 1736928000000 1736928000000]\<rparr>)"
  by (simp add: attendance_eval)

lemma Attendance_markClassAttendance_scenario_replay:
  "Attendance_markClassAttendance noon 1 1736935200000
     [student 101 ''present'', student 102 ''absent''] 50
     (group_G\<lparr>attendances :=
        [marked 1 101 ''present'' 1736928000000 1736928000000,
         marked 2 102 ''absent'' 1736928000000 1736928000000]\<rparr>)
   = (Inr \<lparr>upsertedCount = 0, modifiedCount = 2\<rparr>,
      group_G\<lparr>attendances :=
        [marked 1 101 ''present'' 1736928000000 1736942400000,
         marked 2 102 ''absent'' 1736928000000 1736942400000]\<rparr>)"
  by (simp add: attendance_eval)

text \<open>
  Claim C8, on \<^verbatim>\<open>attendanceSchema.statics.markClassAttendance\<close>, the upsert that the
  claim cites. For every class, date, batch, recorder and state, marking the same batch a
  second time leaves the stored attendance documents as the first marking left them: in
  every field but \<^verbatim>\<open>updatedAt\<close> when the second marking is at another instant, where
  \<^verbatim>\<open>bulkWrite\<close> stamps the documents again, and in every field when it is at the same
  instant; classes and enrollments are not touched. When no two stored documents share
  (student, day), neither do two after the marking: each record is an upsert selected by
  the student and the start of the day. And the marking does store the batch: when the
  class exists, the (student, day) keys of the stored documents are afterwards those of
  before and those of the records.
\<close>

theorem Attendance_markClassAttendance_idempotent:
  "map except_updatedAt
     (attendances (snd (Attendance_markClassAttendance c' classId date records actor
        (snd (Attendance_markClassAttendance c classId date records actor st)))))
     = map except_updatedAt
         (attendances (snd (Attendance_markClassAttendance c classId date records actor st)))
   \<and> snd (Attendance_markClassAttendance c classId date records actor
          (snd (Attendance_markClassAttendance c classId date records actor st)))
       = snd (Attendance_markClassAttendance c classId date records actor st)
   \<and> classes (snd (Attendance_markClassAttendance c' classId date records actor
          (snd (Attendance_markClassAttendance c classId date records actor st)))) = classes st
   \<and> enrollments (snd (Attendance_markClassAttendance c' classId date records actor
          (snd (Attendance_markClassAttendance c classId date records actor st))))
       = enrollments st
   \<and> (distinct (map att_key (attendances st)) \<longrightarrow>
        distinct (map att_key
          (attendances (snd (Attendance_markClassAttendance c classId date records actor st)))))
   \<and> (Class_findById classId (classes st) \<noteq> None \<longrightarrow>
        set (map att_key
          (attendances (snd (Attendance_markClassAttendance c classId date records actor st))))
        = set (map (\<lambda>r. (rec_studentId r, startOfDay date)) records)
            \<union> set (map att_key (attendances st)))"
proof (cases "Class_findById classId (classes st)")
  case None
  then show ?thesis by (simp add: Attendance_markClassAttendance_state)
next
  case (Some classDoc)
  let ?ops = "map (attendance_operation classId (startOfDay date) actor
                     (cls_academicYear classDoc)) records"
  have once: "snd (Attendance_markClassAttendance k classId date records actor st') =
                st'\<lparr>attendances := fold (updateOne_upsert k) ?ops (attendances st')\<rparr>"
    if "classes st' = classes st" for k st'
    using that Some by (simp add: Attendance_markClassAttendance_state)
  let ?st1 = "st\<lparr>attendances := fold (updateOne_upsert c) ?ops (attendances st)\<rparr>"
  have first: "snd (Attendance_markClassAttendance c classId date records actor st) = ?st1"
    by (simp add: once)
  have second: "snd (Attendance_markClassAttendance k classId date records actor ?st1) =
      ?st1\<lparr>attendances := fold (updateOne_upsert k) ?ops (attendances ?st1)\<rparr>" for k
    by (rule once) simp
  have keys: "map op_key ?ops = map (\<lambda>r. (rec_studentId r, startOfDay date)) records"
    by (simp add: op_key_def attendance_operation_def)
  have stored: "set (map att_key (fold (updateOne_upsert c) ?ops (attendances st)))
      = set (map (\<lambda>r. (rec_studentId r, startOfDay date)) records)
          \<union> set (map att_key (attendances st))"
    by (simp only: keys_fold_upsert keys)
  show ?thesis
    unfolding first second
    using stored
    by (simp add: fold_upsert_replay fold_upsert_idem distinct_fold_upsert del: set_map)
qed

theorem Attendance_markClassAttendance_idempotent_witness:
  "distinct (map att_key (attendances group_G))
   \<and> Class_findById 1 (classes group_G) \<noteq> None
   \<and> set (map att_key (attendances
        (snd (Attendance_markClassAttendance morning 1 1736935200000
                [student 101 ''present'', student 102 ''absent''] 50 group_G))))
      = set (map (\<lambda>r. (rec_studentId r, startOfDay 1736935200000))
               [student 101 ''present'', student 102 ''absent''])
          \<union> set (map att_key (attendances group_G))
   \<and> distinct (map att_key (attendances
        (snd (Attendance_markClassAttendance morning 1 1736935200000
                [student 101 ''present'', student 102 ''absent''] 50 group_G))))
   \<and> attendances (snd (Attendance_markClassAttendance morning 1 1736935200000
                [student 101 ''present'', student 102 ''absent''] 50 group_G))
      = [marked 1 101 ''present'' 1736928000000 1736928000000,
         marked 2 102 ''absent'' 1736928000000 1736928000000]"
proof -
  have h: "distinct (map att_key (attendances group_G))"
    by (simp add: group_G_def)
  note t = Attendance_markClassAttendance_idempotent
             [of noon 1 1736935200000 "[student 101 ''present'', student 102 ''absent'']"
                 50 morning group_G]
  have k: "Class_findById 1 (classes group_G) \<noteq> None"
    by (simp add: Class_findById_def group_G_def scenario_defs)
  have b: "distinct (map att_key (attendances
        (snd (Attendance_markClassAttendance morning 1 1736935200000
                [student 101 ''present'', student 102 ''absent''] 50 group_G))))"
    using t h by blast
  have s: "set (map att_key (attendances
        (snd (Attendance_markClassAttendance morning 1 1736935200000
                [student 101 ''present'', student 102 ''absent''] 50 group_G))))
      = set (map (\<lambda>r. (rec_studentId r, startOfDay 1736935200000))
               [student 101 ''present'', student 102 ''absent''])
          \<union> set (map att_key (attendances group_G))"
    using t k by blast
  have d: "attendances (snd (Attendance_markClassAttendance morning 1 1736935200000
                [student 101 ''present'', student 102 ''absent''] 50 group_G))
      = [marked 1 101 ''present'' 1736928000000 1736928000000,
         marked 2 102 ''absent'' 1736928000000 1736928000000]"
    by (simp only: Attendance_markClassAttendance_scenario snd_conv) simp
  show ?thesis
    by (intro conjI h k s b d)
qed

subsection \<open>Marking a class: the service\<close>

lemma hex_char_no_brace:
  assumes "k < 16"
  shows "hex_char k \<noteq> CHR ''{''"
proof -
  from assms have "k = 0 \<or> k = 1 \<or> k = 2 \<or> k = 3 \<or> k = 4 \<or> k = 5 \<or> k = 6 \<or> k = 7 \<or> k = 8
      \<or> k = 9 \<or> k = 10 \<or> k = 11 \<or> k = 12 \<or> k = 13 \<or> k = 14 \<or> k = 15"
    by arith
  then show ?thesis
    by (elim disjE) (simp_all add: hex_char_def)
qed

lemma hex_of_nat_no_brace: "CHR ''{'' \<notin> set (hex_of_nat n)"
proof (induction n rule: hex_of_nat.induct)
  case (1 n)
  show ?case
  proof (cases "n < 16")
    case True
    then show ?thesis
      using hex_char_no_brace [of n] by (subst hex_of_nat.simps) simp
  next
    case False
    then show ?thesis
      using 1 hex_char_no_brace [of "n mod 16"] by (subst hex_of_nat.simps) simp
  qed
qed

lemma ObjectId_toString_no_brace: "CHR ''{'' \<notin> set (ObjectId_toString i)"
  using hex_of_nat_no_brace [of i] by (simp add: ObjectId_toString_def padStart_def)

text \<open>The string of an id is never the string of a populated document.\<close>

lemma ObjectId_toString_neq_Document_toString:
  "ObjectId_toString i \<noteq> Document_toString s"
proof
  assume "ObjectId_toString i = Document_toString s"
  then have "CHR ''{'' \<in> set (ObjectId_toString i)"
    by (simp add: Document_toString_def)
  then show False
    using ObjectId_toString_no_brace by blast
qed

lemma those_map_option:
  "those (map (\<lambda>e. map_option f (g e)) es) = Some ys \<Longrightarrow> \<forall>y \<in> set ys. \<exists>s. y = f s"
proof (induction es arbitrary: ys)
  case Nil
  then show ?case by simp
next
  case (Cons e es)
  then show ?case
    by (auto split: option.splits)
qed

text \<open>
  So every record of a batch is held to be not enrolled: when the class is found and
  every populated student exists, a batch that is not empty is rejected with the ids of
  all its records.
\<close>

lemma markClassAttendance_rejects_every_batch:
  assumes "records \<noteq> []"
  shows "markClassAttendance c students classId date records actor st
           \<in> {(Inl ClassNotFound, st), (Inl TypeError, st),
              (Inl (StudentsNotEnrolled (map rec_studentId records)), st)}"
proof (cases "Class_findOne classId (usr_schoolId actor) (classes st)")
  case None
  then show ?thesis by (simp add: markClassAttendance_def)
next
  case (Some classDoc)
  show ?thesis
  proof (cases "those (map (\<lambda>e. map_option Document_toString (populate_studentId students e))
                         (findActiveByClass classId (enrollments st)))")
    case None
    then show ?thesis using Some by (simp add: markClassAttendance_def)
  next
    case (Some ids)
    have "ObjectId_toString (rec_studentId r) \<notin> set ids" for r :: attendance_record
      using those_map_option [OF Some] ObjectId_toString_neq_Document_toString by blast
    then have all: "filter (\<lambda>record. ObjectId_toString (rec_studentId record) \<notin> set ids) records
                     = records"
      by (simp add: filter_id_conv)
    show ?thesis
      using \<open>Class_findOne classId (usr_schoolId actor) (classes st) = Some classDoc\<close>
        Some assms
      by (simp add: markClassAttendance_def Let_def all)
  qed
qed

text \<open>
  The only batch that reaches the bulk write is the empty one, so the service leaves
  every state as it was.
\<close>

lemma markClassAttendance_never_writes:
  "snd (markClassAttendance c students classId date records actor st) = st"
proof (cases "records = []")
  case False
  from markClassAttendance_rejects_every_batch [OF this, of c students classId date actor st]
  show ?thesis by auto
next
  case True
  have "snd (Attendance_markClassAttendance c classId date [] (usr_id actor) st) = st"
    by (simp add: Attendance_markClassAttendance_state split: option.splits)
  then show ?thesis
    unfolding True
    by (auto simp: markClassAttendance_def Let_def split: option.splits prod.splits sum.splits)
qed

lemmas service_eval = markClassAttendance_def Class_findOne_def findActiveByClass_def
  populate_studentId_def ObjectId_toString_neq_Document_toString group_G_def students_G_def
  teacher_def student_def scenario_defs Let_def

text \<open>
  The batch of the two students who are enrolled is rejected as well, and nothing is
  stored.
\<close>

lemma markClassAttendance_enrolled_batch_rejected:
  "markClassAttendance morning students_G 1 1736935200000
     [student 101 ''present'', student 102 ''absent''] teacher group_G
   = (Inl (StudentsNotEnrolled [101, 102]), group_G)"
  by (simp add: service_eval)

text \<open>
  Claim C7 as stated fails in its own scenario: of the batch for the students 101, 102
  and 103 only 103 is not active in class 1, yet the error names the three; and it is
  the plain \<^verbatim>\<open>Error\<close> of the service, which the error handler answers with 500, not a
  \<^verbatim>\<open>ValidationError\<close>.
\<close>

theorem markClassAttendance_names_all_counterexample:
  "map rec_studentId
     (filter (\<lambda>r. rec_studentId r \<notin>
                 set (map enr_studentId (findActiveByClass 1 (enrollments group_G))))
        [student 101 ''present'', student 102 ''absent'', student 103 ''present''])
     = [103]
   \<and> markClassAttendance morning students_G 1 1736935200000
        [student 101 ''present'', student 102 ''absent'', student 103 ''present'']
        teacher group_G
      = (Inl (StudentsNotEnrolled [101, 102, 103]), group_G)
   \<and> errorHandler (StudentsNotEnrolled [101, 102, 103]) = 500"
  by (simp add: service_eval errorHandler_def)

text \<open>
  Claim C7 as amended. When at least one record of the batch is for a student who is not
  active in the class, \<^verbatim>\<open>markClassAttendance\<close> fails and the state is left as it was: no
  attendance document of the batch is written, those of the enrolled students included.
  The error is never a \<^verbatim>\<open>ValidationError\<close>: it is one that the error handler answers
  with 500.
\<close>

theorem markClassAttendance_rejects_unenrolled:
  assumes "\<exists>r \<in> set records.
             rec_studentId r \<notin> set (map enr_studentId (findActiveByClass classId (enrollments st)))"
  shows "(\<exists>err. fst (markClassAttendance c students classId date records actor st) = Inl err
             \<and> errorHandler err = 500 \<and> (\<forall>paths. err \<noteq> ValidationError paths))
       \<and> snd (markClassAttendance c students classId date records actor st) = st"
proof -
  have "records \<noteq> []" using assms by auto
  from markClassAttendance_rejects_every_batch [OF this, of c students classId date actor st]
  consider "markClassAttendance c students classId date records actor st = (Inl ClassNotFound, st)"
    | "markClassAttendance c students classId date records actor st = (Inl TypeError, st)"
    | "markClassAttendance c students classId date records actor st
         = (Inl (StudentsNotEnrolled (map rec_studentId records)), st)"
    by blast
  then show ?thesis
    by cases (simp_all add: errorHandler_def)
qed

theorem markClassAttendance_rejects_unenrolled_witness:
  "(\<exists>r \<in> set [student 101 ''present'', student 102 ''absent'', student 103 ''present''].
      rec_studentId r \<notin> set (map enr_studentId (findActiveByClass 1 (enrollments group_G))))
   \<and> (\<exists>err. fst (markClassAttendance morning students_G 1 1736935200000
                  [student 101 ''present'', student 102 ''absent'', student 103 ''present'']
                  teacher group_G) = Inl err
          \<and> errorHandler err = 500 \<and> (\<forall>paths. err \<noteq> ValidationError paths))
   \<and> snd (markClassAttendance morning students_G 1 1736935200000
            [student 101 ''present'', student 102 ''absent'', student 103 ''present'']
            teacher group_G) = group_G"
proof -
  let ?rs = "[student 101 ''present'', student 102 ''absent'', student 103 ''present'']"
  have h: "\<exists>r \<in> set ?rs.
      rec_studentId r \<notin> set (map enr_studentId (findActiveByClass 1 (enrollments group_G)))"
    by (simp add: group_G_def findActiveByClass_def student_def scenario_defs)
  show ?thesis
    by (rule conjI [OF h markClassAttendance_rejects_unenrolled [OF h]])
qed

subsection \<open>Correcting one document\<close>

lemma assign_keeps:
  "att_createdAt (fst (assign cs key v acc)) = att_createdAt (fst acc)"
  "key \<noteq> ''_id'' \<Longrightarrow> att_id (fst (assign cs key v acc)) = att_id (fst acc)"
  "key \<noteq> ''studentId'' \<Longrightarrow>
     att_studentId (fst (assign cs key v acc)) = att_studentId (fst acc)"
  "key \<noteq> ''classId'' \<Longrightarrow> att_classId (fst (assign cs key v acc)) = att_classId (fst acc)"
  "key \<noteq> ''date'' \<Longrightarrow> att_date (fst (assign cs key v acc)) = att_date (fst acc)"
  by (cases acc; simp split: option.splits)+

lemma guarded_assign_keeps:
  "att_createdAt (fst (guarded_assign cs kv acc)) = att_createdAt (fst acc)"
  "att_studentId (fst (guarded_assign cs kv acc)) = att_studentId (fst acc)"
  "att_classId (fst (guarded_assign cs kv acc)) = att_classId (fst acc)"
  "att_date (fst (guarded_assign cs kv acc)) = att_date (fst acc)"
  by (cases kv; simp add: guarded_assign_def assign_keeps)+

lemma guarded_assign_id:
  "''_id'' \<noteq> fst kv \<Longrightarrow> att_id (fst (guarded_assign cs kv acc)) = att_id (fst acc)"
  by (cases kv) (auto simp: guarded_assign_def assign_keeps)

lemma fold_guarded_assign_keeps:
  "att_createdAt (fst (fold (guarded_assign cs) updates acc)) = att_createdAt (fst acc)"
  "att_studentId (fst (fold (guarded_assign cs) updates acc)) = att_studentId (fst acc)"
  "att_classId (fst (fold (guarded_assign cs) updates acc)) = att_classId (fst acc)"
  "att_date (fst (fold (guarded_assign cs) updates acc)) = att_date (fst acc)"
  by (induction updates arbitrary: acc; simp add: guarded_assign_keeps)+

lemma fold_guarded_assign_id:
  "''_id'' \<notin> set (map fst updates) \<Longrightarrow>
     att_id (fst (fold (guarded_assign cs) updates acc)) = att_id (fst acc)"
  by (induction updates arbitrary: acc) (simp_all add: guarded_assign_id)

text \<open>The guard of the callback is a filter on the entries.\<close>

lemma fold_guarded_assign_filter:
  "fold (guarded_assign cs) updates acc =
     fold (\<lambda>(key, v). assign cs key v)
       (filter (\<lambda>(key, v). key \<notin> set identity_paths) updates) acc"
  by (induction updates arbitrary: acc)
     (auto simp: guarded_assign_def identity_paths_def)

lemma write_modified_identity:
  assumes "att_studentId d = att_studentId loaded" "att_classId d = att_classId loaded"
    and "att_date d = att_date loaded"
  shows "att_identity (write_modified loaded d target) = att_identity target"
  using assms by (simp add: att_identity_def write_modified_def)

lemma write_modified_self:
  assumes "att_id d = att_id loaded" "att_createdAt d = att_createdAt loaded"
  shows "write_modified loaded d loaded = d"
  using assms by (cases d; cases loaded) (simp add: write_modified_def)

lemma replace_first_identity:
  assumes "find P rs = Some orig" "f d = f orig"
  shows "map f (replace_first P d rs) = map f rs"
  using assms by (induction rs) (auto split: if_splits)

lemma find_replace_first:
  "find P rs = Some x \<Longrightarrow> P d \<Longrightarrow> find P (replace_first P d rs) = Some d"
  by (induction rs) (auto split: if_splits)

text \<open>
  A save of a document that passes validation and has the date it was loaded with: the
  timestamps stamp it when it was modified, and the write goes to the stored document
  with its \<^verbatim>\<open>_id\<close>.
\<close>

lemma Attendance_save_valid:
  assumes "errs @ (if att_status a \<in> set attendanceStatuses then [] else [''status''])
                @ (if att_academicYear a = [] then [''academicYear''] else []) = []"
    and "att_date a = att_date loaded"
    and "s = (if a \<noteq> loaded then a\<lparr>att_updatedAt := Some (now c)\<rparr> else a)"
  shows "Attendance_save c loaded (a, errs) st =
      (case find (\<lambda>r. att_id r = att_id s) (attendances st) of
         None \<Rightarrow> Inl DocumentNotFoundError
       | Some target \<Rightarrow>
           if att_key (write_modified loaded s target) \<noteq> att_key target \<and>
              (\<exists>r \<in> set (attendances st).
                 att_id r \<noteq> att_id (write_modified loaded s target) \<and>
                 att_key r = att_key (write_modified loaded s target))
           then Inl DuplicateKeyError
           else Inr (s, st\<lparr>attendances :=
                          replace_first (\<lambda>r. att_id r = att_id s)
                            (write_modified loaded s target) (attendances st)\<rparr>))"
proof -
  have date: "att_date s = att_date loaded"
    using assms(2) by (simp add: assms(3))
  show ?thesis
    unfolding Attendance_save_def Let_def prod.case assms(1) list.case assms(3) [symmetric]
    using date by simp
qed

lemma Attendance_save_success:
  assumes "Attendance_save c loaded (a, errs) st = Inr (d, st')"
    and "att_studentId a = att_studentId loaded" "att_classId a = att_classId loaded"
    and "att_date a = att_date loaded"
  shows "d = (if a \<noteq> loaded then a\<lparr>att_updatedAt := Some (now c)\<rparr> else a)"
    and "\<exists>target. find (\<lambda>r. att_id r = att_id d) (attendances st) = Some target
           \<and> st' = st\<lparr>attendances := replace_first (\<lambda>r. att_id r = att_id d)
                                        (write_modified loaded d target) (attendances st)\<rparr>"
proof -
  define s where "s = (if a \<noteq> loaded then a\<lparr>att_updatedAt := Some (now c)\<rparr> else a)"
  have valid: "errs @ (if att_status a \<in> set attendanceStatuses then [] else [''status''])
                    @ (if att_academicYear a = [] then [''academicYear''] else []) = []"
  proof (cases "errs @ (if att_status a \<in> set attendanceStatuses then [] else [''status''])
                    @ (if att_academicYear a = [] then [''academicYear''] else [])")
    case Nil
    then show ?thesis .
  next
    case (Cons x xs)
    have "Attendance_save c loaded (a, errs) st = Inl (ValidationError (x # xs))"
      unfolding Attendance_save_def prod.case Cons list.case ..
    then show ?thesis using assms(1) by simp
  qed
  note sv = Attendance_save_valid [OF valid assms(4) s_def, of st]
  obtain target where t: "find (\<lambda>r. att_id r = att_id s) (attendances st) = Some target"
    using assms(1) unfolding sv by (cases "find (\<lambda>r. att_id r = att_id s) (attendances st)") simp_all
  have "d = s \<and> st' = st\<lparr>attendances := replace_first (\<lambda>r. att_id r = att_id s)
                            (write_modified loaded s target) (attendances st)\<rparr>"
    using assms(1) unfolding sv t option.case by (auto split: if_splits)
  then have d: "d = s"
    and st': "st' = st\<lparr>attendances := replace_first (\<lambda>r. att_id r = att_id s)
                            (write_modified loaded s target) (attendances st)\<rparr>"
    by simp_all
  show "d = (if a \<noteq> loaded then a\<lparr>att_updatedAt := Some (now c)\<rparr> else a)"
    using d by (simp only: s_def)
  show "\<exists>target. find (\<lambda>r. att_id r = att_id d) (attendances st) = Some target
           \<and> st' = st\<lparr>attendances := replace_first (\<lambda>r. att_id r = att_id d)
                                        (write_modified loaded d target) (attendances st)\<rparr>"
    unfolding d using t st' by blast
qed

lemma Attendance_save_identity:
  assumes "Attendance_save c loaded (a, errs) st = Inr (d, st')"
    and "att_studentId a = att_studentId loaded" "att_classId a = att_classId loaded"
    and "att_date a = att_date loaded"
  shows "classes st' = classes st" and "enrollments st' = enrollments st"
    and "map att_identity (attendances st') = map att_identity (attendances st)"
proof -
  note s = Attendance_save_success [OF assms]
  obtain target where t: "find (\<lambda>r. att_id r = att_id d) (attendances st) = Some target"
    and st': "st' = st\<lparr>attendances := replace_first (\<lambda>r. att_id r = att_id d)
                                        (write_modified loaded d target) (attendances st)\<rparr>"
    using s(2) by blast
  have d: "att_studentId d = att_studentId loaded" "att_classId d = att_classId loaded"
    "att_date d = att_date loaded"
    using s(1) assms(2-4) by (simp_all split: if_splits)
  show "classes st' = classes st" "enrollments st' = enrollments st"
    by (simp_all add: st')
  show "map att_identity (attendances st') = map att_identity (attendances st)"
    using replace_first_identity [OF t, of att_identity "write_modified loaded d target"]
      write_modified_identity [OF d, of target]
    by (simp add: st')
qed

lemma example_casts_ids:
  "castObjectId example_casts (JStr ''000000000000000000000002'') = Some 2"
  "castObjectId example_casts (JStr ''0000000000000000000003e7'') = Some 999"
  "castString example_casts (JStr s) = Some s"
  by (simp_all add: example_casts_def is_hexdigit_def hexdigit_val_def is_digit_def)

lemmas update_eval = updateAttendance_def guarded_assign_def Attendance_save_def
  write_modified_def cast_required_def cast_optional_def att_key_def trim_def is_space_def
  Class_findOne_def attendanceStatuses_def group_G_def teacher_def marked_def morning_def
  noon_def scenario_defs Let_def

text \<open>
  A correction of the first document of the scenario at noon: status and arrival time
  are stored with the new \<^verbatim>\<open>updatedAt\<close>; the student, the class and the date that the
  updates carry are not.
\<close>

lemma updateAttendance_example:
  "updateAttendance noon example_casts 1
     [(''studentId'', JStr ''0000000000000000000003e7''), (''status'', JStr ''late''),
      (''date'', JNum 5), (''arrivalTime'', JStr ''09:15''), (''notes'', JStr '' bus ''),
      (''classId'', JStr ''000000000000000000000002'')]
     teacher
     (group_G\<lparr>attendances := [marked 1 101 ''present'' 1736928000000 1736928000000,
                                marked 2 102 ''absent'' 1736928000000 1736928000000]\<rparr>)
   = (Inr ((marked 1 101 ''late'' 1736928000000 1736942400000)
             \<lparr>arrivalTime := Some ''09:15'', att_notes := Some ''bus''\<rparr>),
      group_G\<lparr>attendances :=
        [(marked 1 101 ''late'' 1736928000000 1736942400000)
           \<lparr>arrivalTime := Some ''09:15'', att_notes := Some ''bus''\<rparr>,
         marked 2 102 ''absent'' 1736928000000 1736928000000]\<rparr>)"
  by (simp add: update_eval example_casts_def)

text \<open>
  The key \<^verbatim>\<open>_id\<close> passes the guard. With an id that no stored document has, the save
  finds no document and nothing is stored; with the id of the second document, the
  write goes to that document, whose status changes while its student, class and day
  stay.
\<close>

lemma updateAttendance_unknown_id:
  "updateAttendance noon example_casts 1
     [(''_id'', JStr ''0000000000000000000003e7''), (''status'', JStr ''late'')]
     teacher
     (group_G\<lparr>attendances := [marked 1 101 ''present'' 1736928000000 1736928000000,
                                marked 2 102 ''absent'' 1736928000000 1736928000000]\<rparr>)
   = (Inl DocumentNotFoundError,
      group_G\<lparr>attendances := [marked 1 101 ''present'' 1736928000000 1736928000000,
                                marked 2 102 ''absent'' 1736928000000 1736928000000]\<rparr>)"
  by (simp add: update_eval example_casts_ids)

lemma updateAttendance_other_id:
  "updateAttendance noon example_casts 1
     [(''_id'', JStr ''000000000000000000000002''), (''status'', JStr ''late'')]
     teacher
     (group_G\<lparr>attendances := [marked 1 101 ''present'' 1736928000000 1736928000000,
                                marked 2 102 ''absent'' 1736928000000 1736928000000]\<rparr>)
   = (Inr (marked 2 101 ''late'' 1736928000000 1736942400000),
      group_G\<lparr>attendances := [marked 1 101 ''present'' 1736928000000 1736928000000,
                                marked 2 102 ''late'' 1736928000000 1736942400000]\<rparr>)"
  by (simp add: update_eval example_casts_ids)

lemma updateAttendance_frame:
  "map att_identity
     (attendances (snd (updateAttendance c cs attendanceId updates updatedBy st)))
     = map att_identity (attendances st)
   \<and> classes (snd (updateAttendance c cs attendanceId updates updatedBy st)) = classes st
   \<and> enrollments (snd (updateAttendance c cs attendanceId updates updatedBy st))
       = enrollments st
   \<and> (\<forall>loaded saved.
        set (map fst updates) \<subseteq> set identity_paths \<union> set overwritable_paths
        \<and> find (\<lambda>r. att_id r = attendanceId) (attendances st) = Some loaded
        \<and> fst (updateAttendance c cs attendanceId updates updatedBy st) = Inr saved
        \<longrightarrow> saved = overwritten c cs updates loaded
            \<and> att_identity saved = att_identity loaded
            \<and> find (\<lambda>r. att_id r = attendanceId)
                 (attendances (snd (updateAttendance c cs attendanceId updates updatedBy st)))
                = Some saved)"
proof (cases "find (\<lambda>r. att_id r = attendanceId) (attendances st)")
  case None
  then show ?thesis by (simp add: updateAttendance_def)
next
  case (Some attendance)
  note loaded = Some
  show ?thesis
  proof (cases "Class_findOne (att_classId attendance) (usr_schoolId updatedBy) (classes st)")
    case None
    then show ?thesis using loaded by (simp add: updateAttendance_def)
  next
    case (Some classDoc)
    obtain a errs where acc: "fold (guarded_assign cs) updates (attendance, []) = (a, errs)"
      by (cases "fold (guarded_assign cs) updates (attendance, [])")
    have keeps: "att_studentId a = att_studentId attendance"
      "att_classId a = att_classId attendance" "att_date a = att_date attendance"
      "att_createdAt a = att_createdAt attendance"
      using fold_guarded_assign_keeps [of cs updates "(attendance, [])"] acc by simp_all
    have aid: "att_id attendance = attendanceId"
      using loaded by (auto simp: find_Some_iff)
    have unf: "updateAttendance c cs attendanceId updates updatedBy st =
        (case Attendance_save c attendance (a, errs) st of
           Inl e \<Rightarrow> (Inl e, st) | Inr (saved, st') \<Rightarrow> (Inr saved, st'))"
      using loaded Some acc by (simp add: updateAttendance_def)
    show ?thesis
    proof (cases "Attendance_save c attendance (a, errs) st")
      case (Inl e)
      then show ?thesis by (simp add: unf)
    next
      case (Inr r)
      obtain d st' where r: "r = (d, st')" by (cases r)
      note sv = Inr [unfolded r]
      note ident = Attendance_save_identity [OF sv keeps(1-3)]
      note succ = Attendance_save_success [OF sv keeps(1-3)]
      have res: "updateAttendance c cs attendanceId updates updatedBy st = (Inr d, st')"
        by (simp add: unf sv)
      have stored: "d = overwritten c cs updates attendance
            \<and> att_identity d = att_identity attendance
            \<and> find (\<lambda>r. att_id r = attendanceId) (attendances st') = Some d"
        if keys: "set (map fst updates) \<subseteq> set identity_paths \<union> set overwritable_paths"
      proof -
        have "''_id'' \<notin> set (map fst updates)"
          using keys by (auto simp: identity_paths_def overwritable_paths_def)
        then have ida: "att_id a = att_id attendance"
          using fold_guarded_assign_id [of updates cs "(attendance, [])"] acc by simp
        have a: "a = fst (fold (\<lambda>(key, v). assign cs key v)
                     (filter (\<lambda>(key, v). key \<notin> set identity_paths) updates) (attendance, []))"
          using acc by (simp add: fold_guarded_assign_filter [symmetric])
        have d: "d = overwritten c cs updates attendance"
          using succ(1) a by (simp add: overwritten_def Let_def)
        have idd: "att_id d = attendanceId" "att_createdAt d = att_createdAt attendance"
          "att_studentId d = att_studentId attendance" "att_classId d = att_classId attendance"
          "att_date d = att_date attendance"
          using succ(1) ida aid keeps by (simp_all split: if_splits)
        obtain target where t: "find (\<lambda>r. att_id r = att_id d) (attendances st) = Some target"
          and st': "st' = st\<lparr>attendances := replace_first (\<lambda>r. att_id r = att_id d)
                                        (write_modified attendance d target) (attendances st)\<rparr>"
          using succ(2) by blast
        have target: "target = attendance"
          using t loaded idd(1) by simp
        have w: "write_modified attendance d target = d"
          unfolding target using idd(1,2) aid by (intro write_modified_self) simp_all
        have "find (\<lambda>r. att_id r = attendanceId) (attendances st') = Some d"
          using find_replace_first [OF loaded, of d] idd(1) by (simp add: st' w)
        moreover have "att_identity d = att_identity attendance"
          using idd aid by (simp add: att_identity_def)
        ultimately show ?thesis using d by simp
      qed
      have "saved = overwritten c cs updates l \<and> att_identity saved = att_identity l
            \<and> find (\<lambda>r. att_id r = attendanceId) (attendances st') = Some saved"
        if "set (map fst updates) \<subseteq> set identity_paths \<union> set overwritable_paths
            \<and> find (\<lambda>r. att_id r = attendanceId) (attendances st) = Some l
            \<and> Inr d = (Inr saved :: error + attendance)" for l saved
      proof -
        have eq: "l = attendance" "saved = d" using that loaded by simp_all
        have keys: "set (map fst updates) \<subseteq> set identity_paths \<union> set overwritable_paths"
          using that by (rule conjunct1)
        show ?thesis unfolding eq by (rule stored [OF keys])
      qed
      then show ?thesis
        unfolding res fst_conv snd_conv
        using ident by blast
    qed
  qed
qed

lemma updateAttendance_succeeds:
  assumes keys: "set (map fst updates) \<subseteq> set identity_paths \<union> set overwritable_paths"
    and loaded: "find (\<lambda>r. att_id r = attendanceId) (attendances st) = Some loaded"
    and cls: "Class_findOne (att_classId loaded) (usr_schoolId updatedBy) (classes st) \<noteq> None"
    and ok: "refused cs updates loaded = []"
    and status: "att_status (overwritten c cs updates loaded) \<in> set attendanceStatuses"
    and year: "att_academicYear (overwritten c cs updates loaded) \<noteq> []"
  shows "fst (updateAttendance c cs attendanceId updates updatedBy st)
           = Inr (overwritten c cs updates loaded)"
proof -
  obtain a errs where acc: "fold (guarded_assign cs) updates (loaded, []) = (a, errs)"
    by (cases "fold (guarded_assign cs) updates (loaded, [])")
  have a: "a = fst (fold (\<lambda>(key, v). assign cs key v)
                     (filter (\<lambda>(key, v). key \<notin> set identity_paths) updates) (loaded, []))"
    and errs: "errs = []"
    using acc ok by (simp_all add: fold_guarded_assign_filter [symmetric] refused_def)
  define s where "s = (if a \<noteq> loaded then a\<lparr>att_updatedAt := Some (now c)\<rparr> else a)"
  have s: "s = overwritten c cs updates loaded"
    using a by (simp add: s_def overwritten_def Let_def)
  have keeps: "att_studentId a = att_studentId loaded" "att_date a = att_date loaded"
    "att_createdAt a = att_createdAt loaded"
    using fold_guarded_assign_keeps [of cs updates "(loaded, [])"] acc by simp_all
  have "''_id'' \<notin> set (map fst updates)"
    using keys by (auto simp: identity_paths_def overwritable_paths_def)
  then have ida: "att_id a = att_id loaded"
    using fold_guarded_assign_id [of updates cs "(loaded, [])"] acc by simp
  have aid: "att_id loaded = attendanceId"
    using loaded by (auto simp: find_Some_iff)
  have sa: "att_status s = att_status a" "att_academicYear s = att_academicYear a"
    "att_id s = att_id loaded" "att_createdAt s = att_createdAt loaded"
    "att_studentId s = att_studentId loaded" "att_date s = att_date loaded"
    using ida keeps by (simp_all add: s_def)
  have valid: "errs @ (if att_status a \<in> set attendanceStatuses then [] else [''status''])
                    @ (if att_academicYear a = [] then [''academicYear''] else []) = []"
    using status year sa(1,2) by (simp add: errs s [symmetric])
  have found: "find (\<lambda>r. att_id r = att_id s) (attendances st) = Some loaded"
    using loaded sa(3) aid by simp
  have w: "write_modified loaded s loaded = s"
    by (rule write_modified_self [OF sa(3,4)])
  have key: "att_key s = att_key loaded"
    using sa(5,6) by (simp add: att_key_def)
  have "Attendance_save c loaded (a, errs) st =
          Inr (s, st\<lparr>attendances :=
                     replace_first (\<lambda>r. att_id r = att_id s) s (attendances st)\<rparr>)"
    unfolding Attendance_save_valid [OF valid keeps(2) s_def, of st] found option.case w
    using key by simp
  then have "fst (updateAttendance c cs attendanceId updates updatedBy st) = Inr s"
    using loaded cls acc by (auto simp: updateAttendance_def)
  then show ?thesis by (simp only: s)
qed

text \<open>
  Claim C10. \<^verbatim>\<open>updateAttendance\<close> never changes the identity of a stored document: for
  every instant, table of conversions, state, id, updates object and user, the ids,
  students, classes and days of the stored attendance documents are after the call what
  they were before, also when the updates carry the keys \<^verbatim>\<open>studentId\<close>, \<^verbatim>\<open>classId\<close> or
  \<^verbatim>\<open>date\<close>; classes and enrollments are not touched. And the remaining fields are
  overwritten, when the keys of the updates are among those three and \<^verbatim>\<open>status\<close>,
  \<^verbatim>\<open>arrivalTime\<close>, \<^verbatim>\<open>notes\<close>, \<^verbatim>\<open>recordedBy\<close> and \<^verbatim>\<open>academicYear\<close>: a successful call returns
  the loaded document with the identity it had and with every entry assigned whose key
  is not of the three (\<^verbatim>\<open>updatedAt\<close> following when that changed anything), and that is
  the document stored under the id after the call; and the call is successful when the
  document is stored, its class is of the user's school, no value is refused, and the
  status and the academic year asked for pass validation.
\<close>

theorem updateAttendance_keeps_identity:
  "map att_identity
     (attendances (snd (updateAttendance c cs attendanceId updates updatedBy st)))
     = map att_identity (attendances st)
   \<and> classes (snd (updateAttendance c cs attendanceId updates updatedBy st)) = classes st
   \<and> enrollments (snd (updateAttendance c cs attendanceId updates updatedBy st))
       = enrollments st
   \<and> (\<forall>loaded saved.
        set (map fst updates) \<subseteq> set identity_paths \<union> set overwritable_paths
        \<and> find (\<lambda>r. att_id r = attendanceId) (attendances st) = Some loaded
        \<and> fst (updateAttendance c cs attendanceId updates updatedBy st) = Inr saved
        \<longrightarrow> saved = overwritten c cs updates loaded
            \<and> att_identity saved = att_identity loaded
            \<and> find (\<lambda>r. att_id r = attendanceId)
                 (attendances (snd (updateAttendance c cs attendanceId updates updatedBy st)))
                = Some saved)
   \<and> (\<forall>loaded.
        set (map fst updates) \<subseteq> set identity_paths \<union> set overwritable_paths
        \<and> find (\<lambda>r. att_id r = attendanceId) (attendances st) = Some loaded
        \<and> Class_findOne (att_classId loaded) (usr_schoolId updatedBy) (classes st) \<noteq> None
        \<and> refused cs updates loaded = []
        \<and> att_status (overwritten c cs updates loaded) \<in> set attendanceStatuses
        \<and> att_academicYear (overwritten c cs updates loaded) \<noteq> []
        \<longrightarrow> fst (updateAttendance c cs attendanceId updates updatedBy st)
              = Inr (overwritten c cs updates loaded))"
proof -
  note f = updateAttendance_frame [of c cs attendanceId updates updatedBy st]
  have a: "map att_identity
     (attendances (snd (updateAttendance c cs attendanceId updates updatedBy st)))
     = map att_identity (attendances st)"
    and b: "classes (snd (updateAttendance c cs attendanceId updates updatedBy st)) = classes st"
    and e: "enrollments (snd (updateAttendance c cs attendanceId updates updatedBy st))
       = enrollments st"
    and r: "\<forall>loaded saved.
        set (map fst updates) \<subseteq> set identity_paths \<union> set overwritable_paths
        \<and> find (\<lambda>r. att_id r = attendanceId) (attendances st) = Some loaded
        \<and> fst (updateAttendance c cs attendanceId updates updatedBy st) = Inr saved
        \<longrightarrow> saved = overwritten c cs updates loaded
            \<and> att_identity saved = att_identity loaded
            \<and> find (\<lambda>r. att_id r = attendanceId)
                 (attendances (snd (updateAttendance c cs attendanceId updates updatedBy st)))
                = Some saved"
    using f by blast+
  have s: "\<forall>loaded.
        set (map fst updates) \<subseteq> set identity_paths \<union> set overwritable_paths
        \<and> find (\<lambda>r. att_id r = attendanceId) (attendances st) = Some loaded
        \<and> Class_findOne (att_classId loaded) (usr_schoolId updatedBy) (classes st) \<noteq> None
        \<and> refused cs updates loaded = []
        \<and> att_status (overwritten c cs updates loaded) \<in> set attendanceStatuses
        \<and> att_academicYear (overwritten c cs updates loaded) \<noteq> []
        \<longrightarrow> fst (updateAttendance c cs attendanceId updates updatedBy st)
              = Inr (overwritten c cs updates loaded)"
    using updateAttendance_succeeds [of updates attendanceId st _ updatedBy cs c] by blast
  show ?thesis
    by (intro conjI a b e r s)
qed

theorem updateAttendance_keeps_identity_witness:
  "set (map fst [(''studentId'', JStr ''0000000000000000000003e7''), (''status'', JStr ''late''),
                 (''date'', JNum 5), (''arrivalTime'', JStr ''09:15''), (''notes'', JStr '' bus ''),
                 (''classId'', JStr ''000000000000000000000002'')])
     \<subseteq> set identity_paths \<union> set overwritable_paths
   \<and> find (\<lambda>r. att_id r = 1)
        (attendances (group_G\<lparr>attendances :=
           [marked 1 101 ''present'' 1736928000000 1736928000000,
            marked 2 102 ''absent'' 1736928000000 1736928000000]\<rparr>))
      = Some (marked 1 101 ''present'' 1736928000000 1736928000000)
   \<and> Class_findOne (att_classId (marked 1 101 ''present'' 1736928000000 1736928000000))
        (usr_schoolId teacher)
        (classes (group_G\<lparr>attendances :=
           [marked 1 101 ''present'' 1736928000000 1736928000000,
            marked 2 102 ''absent'' 1736928000000 1736928000000]\<rparr>)) \<noteq> None
   \<and> refused example_casts
        [(''studentId'', JStr ''0000000000000000000003e7''), (''status'', JStr ''late''),
         (''date'', JNum 5), (''arrivalTime'', JStr ''09:15''), (''notes'', JStr '' bus ''),
         (''classId'', JStr ''000000000000000000000002'')]
        (marked 1 101 ''present'' 1736928000000 1736928000000) = []
   \<and> overwritten noon example_casts
        [(''studentId'', JStr ''0000000000000000000003e7''), (''status'', JStr ''late''),
         (''date'', JNum 5), (''arrivalTime'', JStr ''09:15''), (''notes'', JStr '' bus ''),
         (''classId'', JStr ''000000000000000000000002'')]
        (marked 1 101 ''present'' 1736928000000 1736928000000)
      = (marked 1 101 ''late'' 1736928000000 1736942400000)
          \<lparr>arrivalTime := Some ''09:15'', att_notes := Some ''bus''\<rparr>
   \<and> fst (updateAttendance noon example_casts 1
        [(''studentId'', JStr ''0000000000000000000003e7''), (''status'', JStr ''late''),
         (''date'', JNum 5), (''arrivalTime'', JStr ''09:15''), (''notes'', JStr '' bus ''),
         (''classId'', JStr ''000000000000000000000002'')]
        teacher
        (group_G\<lparr>attendances := [marked 1 101 ''present'' 1736928000000 1736928000000,
                                   marked 2 102 ''absent'' 1736928000000 1736928000000]\<rparr>))
      = Inr ((marked 1 101 ''late'' 1736928000000 1736942400000)
               \<lparr>arrivalTime := Some ''09:15'', att_notes := Some ''bus''\<rparr>)
   \<and> find (\<lambda>r. att_id r = 1)
        (attendances (snd (updateAttendance noon example_casts 1
           [(''studentId'', JStr ''0000000000000000000003e7''), (''status'', JStr ''late''),
            (''date'', JNum 5), (''arrivalTime'', JStr ''09:15''), (''notes'', JStr '' bus ''),
            (''classId'', JStr ''000000000000000000000002'')]
           teacher
           (group_G\<lparr>attendances := [marked 1 101 ''present'' 1736928000000 1736928000000,
                                      marked 2 102 ''absent'' 1736928000000 1736928000000]\<rparr>))))
      = Some ((marked 1 101 ''late'' 1736928000000 1736942400000)
                \<lparr>arrivalTime := Some ''09:15'', att_notes := Some ''bus''\<rparr>)"
proof -
  let ?updates = "[(''studentId'', JStr ''0000000000000000000003e7''), (''status'', JStr ''late''),
                   (''date'', JNum 5), (''arrivalTime'', JStr ''09:15''), (''notes'', JStr '' bus ''),
                   (''classId'', JStr ''000000000000000000000002'')]"
  let ?st = "group_G\<lparr>attendances := [marked 1 101 ''present'' 1736928000000 1736928000000,
                                      marked 2 102 ''absent'' 1736928000000 1736928000000]\<rparr>"
  let ?loaded = "marked 1 101 ''present'' 1736928000000 1736928000000"
  let ?saved = "(marked 1 101 ''late'' 1736928000000 1736942400000)
                  \<lparr>arrivalTime := Some ''09:15'', att_notes := Some ''bus''\<rparr>"
  have k: "set (map fst ?updates) \<subseteq> set identity_paths \<union> set overwritable_paths"
    by (simp add: identity_paths_def overwritable_paths_def)
  have l: "find (\<lambda>r. att_id r = 1) (attendances ?st) = Some ?loaded"
    by (simp add: marked_def)
  have c: "Class_findOne (att_classId ?loaded) (usr_schoolId teacher) (classes ?st) \<noteq> None"
    by (simp add: Class_findOne_def marked_def teacher_def group_G_def scenario_defs)
  have n: "refused example_casts ?updates ?loaded = []"
    by (simp add: refused_def identity_paths_def cast_required_def cast_optional_def
          example_casts_def)
  have o: "overwritten noon example_casts ?updates ?loaded = ?saved"
    by (simp add: overwritten_def identity_paths_def cast_required_def cast_optional_def
          example_casts_def marked_def noon_def trim_def is_space_def Let_def)
  have v: "att_status (overwritten noon example_casts ?updates ?loaded) \<in> set attendanceStatuses"
    "att_academicYear (overwritten noon example_casts ?updates ?loaded) \<noteq> []"
    unfolding o by (simp_all add: marked_def attendanceStatuses_def)
  note t = updateAttendance_keeps_identity [of noon example_casts 1 ?updates teacher ?st]
  have hs: "set (map fst ?updates) \<subseteq> set identity_paths \<union> set overwritable_paths
      \<and> find (\<lambda>r. att_id r = 1) (attendances ?st) = Some ?loaded
      \<and> Class_findOne (att_classId ?loaded) (usr_schoolId teacher) (classes ?st) \<noteq> None
      \<and> refused example_casts ?updates ?loaded = []
      \<and> att_status (overwritten noon example_casts ?updates ?loaded) \<in> set attendanceStatuses
      \<and> att_academicYear (overwritten noon example_casts ?updates ?loaded) \<noteq> []"
    by (intro conjI k l c n v)
  have r: "fst (updateAttendance noon example_casts 1 ?updates teacher ?st) = Inr ?saved"
    using t [THEN conjunct2, THEN conjunct2, THEN conjunct2, THEN conjunct2, rule_format,
             OF hs]
    by (simp only: o)
  have hr: "set (map fst ?updates) \<subseteq> set identity_paths \<union> set overwritable_paths
      \<and> find (\<lambda>r. att_id r = 1) (attendances ?st) = Some ?loaded
      \<and> fst (updateAttendance noon example_casts 1 ?updates teacher ?st) = Inr ?saved"
    by (intro conjI k l r)
  have f: "find (\<lambda>r. att_id r = 1)
             (attendances (snd (updateAttendance noon example_casts 1 ?updates teacher ?st)))
           = Some ?saved"
    using t [THEN conjunct2, THEN conjunct2, THEN conjunct2, THEN conjunct1, rule_format,
             OF hr]
    by (elim conjE)
  show ?thesis
    by (intro conjI k l c n o r f)
qed

section \<open>Properties of the payment numbers\<close>

subsection \<open>Decimal strings\<close>

lemma digit_char_cases:
  assumes "k < 10"
  shows "is_digit (digit_char k) \<and> digit_val (digit_char k) = k"
proof -
  from assms have "k = 0 \<or> k = 1 \<or> k = 2 \<or> k = 3 \<or> k = 4 \<or> k = 5 \<or> k = 6 \<or> k = 7 \<or> k = 8 \<or> k = 9"
    by arith
  then show ?thesis
    by (elim disjE) (simp_all add: digit_char_def is_digit_def digit_val_def)
qed

lemma String_of_nat_digits: "\<forall>ch \<in> set (String_of_nat n). is_digit ch"
proof (induction n rule: String_of_nat.induct)
  case (1 n)
  show ?case
  proof (cases "n < 10")
    case True
    then show ?thesis
      using digit_char_cases [of n] by (subst String_of_nat.simps) simp
  next
    case False
    then show ?thesis
      using 1 digit_char_cases [of "n mod 10"] by (subst String_of_nat.simps) simp
  qed
qed

lemma String_of_nat_nonempty: "String_of_nat n \<noteq> []"
  by (subst String_of_nat.simps) simp

lemma foldl_decimal_append:
  "foldl (\<lambda>a d. 10 * a + digit_val d) a (xs @ [x]) =
     10 * foldl (\<lambda>a d. 10 * a + digit_val d) a xs + digit_val x"
  by simp

lemma String_of_nat_value:
  "foldl (\<lambda>a d. 10 * a + digit_val d) 0 (String_of_nat n) = n"
proof (induction n rule: String_of_nat.induct)
  case (1 n)
  show ?case
  proof (cases "n < 10")
    case True
    then show ?thesis
      using digit_char_cases [of n] by (subst String_of_nat.simps) simp
  next
    case False
    then have "foldl (\<lambda>a d. 10 * a + digit_val d) 0 (String_of_nat (n div 10)) = n div 10"
      using 1 by simp
    then show ?thesis
      using False digit_char_cases [of "n mod 10"]
      by (subst String_of_nat.simps) simp
  qed
qed

lemma foldl_decimal_zeros:
  "foldl (\<lambda>a d. 10 * a + digit_val d) 0 (replicate k CHR ''0'' @ s) =
     foldl (\<lambda>a d. 10 * a + digit_val d) 0 s"
  by (induction k) (simp_all add: digit_val_def)

lemma is_digit_zero: "is_digit CHR ''0''"
  by (simp add: is_digit_def)

lemma padStart_digits: "\<forall>ch \<in> set (padStart k (String_of_nat n)). is_digit ch"
  using String_of_nat_digits [of n] is_digit_zero by (auto simp: padStart_def)

lemma padStart_nonempty: "padStart k (String_of_nat n) \<noteq> []"
  by (simp add: padStart_def String_of_nat_nonempty)

lemma parseInt_digits:
  assumes "s \<noteq> []" "\<forall>ch \<in> set s. is_digit ch"
  shows "parseInt s = Some (foldl (\<lambda>a d. 10 * a + digit_val d) 0 s)"
proof -
  obtain x r where s: "s = x # r" using assms(1) by (cases s) auto
  have x: "is_digit x" using assms(2) s by simp
  then have nsp: "\<not> is_space x" and npl: "x \<noteq> CHR ''+''"
    by (auto simp: is_digit_def is_space_def)
  have nhex: "take 2 s \<noteq> ''0x'' \<and> take 2 s \<noteq> ''0X''"
  proof (cases r)
    case Nil
    then show ?thesis using s by simp
  next
    case (Cons y r')
    then have "is_digit y" using assms(2) s by simp
    then have "y \<noteq> CHR ''x'' \<and> y \<noteq> CHR ''X''" by (auto simp: is_digit_def)
    then show ?thesis using s Cons by simp
  qed
  have tw: "takeWhile is_digit s = s"
    using assms(2) by (simp add: takeWhile_eq_all_conv)
  have dw: "dropWhile is_space s = s"
    using nsp s by simp
  have u: "(case s of [] \<Rightarrow> s | x # r \<Rightarrow> if x = CHR ''+'' then r else s) = s"
    using npl s by simp
  show ?thesis
    unfolding parseInt_def Let_def dw u tw
    using nhex assms(1) by simp
qed

lemma parseInt_padStart: "parseInt (padStart k (String_of_nat n)) = Some n"
proof -
  have "parseInt (padStart k (String_of_nat n))
          = Some (foldl (\<lambda>a d. 10 * a + digit_val d) 0 (padStart k (String_of_nat n)))"
    by (rule parseInt_digits [OF padStart_nonempty padStart_digits])
  also have "foldl (\<lambda>a d. 10 * a + digit_val d) 0 (padStart k (String_of_nat n)) = n"
    by (simp only: padStart_def foldl_decimal_zeros String_of_nat_value)
  finally show ?thesis .
qed

lemma split_no_sep: "c \<notin> set xs \<Longrightarrow> split c xs = [xs]"
  by (induction xs) auto

lemma split_at_sep: "c \<notin> set xs \<Longrightarrow> split c (xs @ c # ys) = xs # split c ys"
  by (induction xs) auto

lemma digits_no_dash:
  assumes "\<forall>ch \<in> set s. is_digit ch"
  shows "CHR ''-'' \<notin> set s"
proof
  assume "CHR ''-'' \<in> set s"
  then have "is_digit CHR ''-''" using assms by blast
  then show False by (simp add: is_digit_def)
qed

lemma split_payment_number:
  "split CHR ''-'' (payment_prefix y @ padStart k (String_of_nat n)) =
     [''PAY'', String_of_nat y, padStart k (String_of_nat n)]"
proof -
  let ?pad = "padStart k (String_of_nat n)"
  have e: "payment_prefix y @ ?pad = ''PAY'' @ CHR ''-'' # (String_of_nat y @ CHR ''-'' # ?pad)"
    by (simp add: payment_prefix_def)
  have 1: "split CHR ''-'' (''PAY'' @ CHR ''-'' # (String_of_nat y @ CHR ''-'' # ?pad))
             = ''PAY'' # split CHR ''-'' (String_of_nat y @ CHR ''-'' # ?pad)"
    by (rule split_at_sep) simp
  have 2: "split CHR ''-'' (String_of_nat y @ CHR ''-'' # ?pad)
             = String_of_nat y # split CHR ''-'' ?pad"
    by (rule split_at_sep) (rule digits_no_dash [OF String_of_nat_digits])
  have 3: "split CHR ''-'' ?pad = [?pad]"
    by (rule split_no_sep) (rule digits_no_dash [OF padStart_digits])
  show ?thesis
    by (simp only: e 1 2 3)
qed

lemma nextNumber_payment_number:
  "nextNumber (Some (payment_prefix y @ padStart k (String_of_nat n))) = Some (n + 1)"
proof -
  have "length [''PAY'', String_of_nat y, padStart k (String_of_nat n)] = 3"
    by simp
  then show ?thesis
    unfolding nextNumber_def option.case Let_def split_payment_number
    by (simp add: parseInt_padStart)
qed

subsection \<open>The last payment and the next number\<close>

lemma fold_greatest:
  "fold (\<lambda>m best. if best < m then m else best) ns (n :: 'a :: linorder) = Max (set (n # ns))"
proof -
  have "(\<lambda>m best. if best < m then m else best) = (max :: 'a \<Rightarrow> 'a \<Rightarrow> 'a)"
    by (auto simp: fun_eq_iff max_def)
  then show ?thesis by (simp only: Max.set_eq_fold)
qed

lemma set_stored_numbers:
  "set (filter (startsWith prefix) (List.map_filter paymentNumber ps)) =
     {m. startsWith prefix m \<and> (\<exists>q \<in> set ps. paymentNumber q = Some m)}"
  by (force simp: map_filter_def image_iff)

lemma findLastPayment_none:
  assumes "\<forall>q \<in> set ps. \<forall>m. paymentNumber q = Some m \<longrightarrow> \<not> startsWith prefix m"
  shows "findLastPayment prefix ps = None"
proof -
  have "set (filter (startsWith prefix) (List.map_filter paymentNumber ps)) = {}"
    using assms unfolding set_stored_numbers by blast
  then show ?thesis by (simp add: findLastPayment_def)
qed

lemma findLastPayment_greatest:
  assumes "\<exists>p \<in> set ps. paymentNumber p = Some lst" "startsWith prefix lst"
    and "\<forall>q \<in> set ps. \<forall>m. paymentNumber q = Some m \<and> startsWith prefix m \<longrightarrow> m \<le> lst"
  shows "findLastPayment prefix ps = Some lst"
proof -
  let ?ns = "filter (startsWith prefix) (List.map_filter paymentNumber ps)"
  have mem: "lst \<in> set ?ns"
    using assms(1,2) unfolding set_stored_numbers by blast
  have le: "\<forall>m \<in> set ?ns. m \<le> lst"
    using assms(3) unfolding set_stored_numbers by blast
  obtain n ns where ns: "?ns = n # ns"
    using mem by (cases ?ns) auto
  have "Max (set ?ns) = lst"
    using mem le by (intro Max_eqI) auto
  then show ?thesis
    by (simp add: findLastPayment_def ns fold_greatest)
qed

lemma startsWith_prefix: "startsWith p (p @ s)"
  by (simp add: startsWith_def)

lemma findLastPayment_reassigned:
  "findLastPayment prefix (map (\<lambda>p. p\<lparr>pay_invoiceId := invoice_of p, pay_studentId := student_of p\<rparr>) ps)
     = findLastPayment prefix ps"
proof -
  have "List.map_filter paymentNumber
          (map (\<lambda>p. p\<lparr>pay_invoiceId := invoice_of p, pay_studentId := student_of p\<rparr>) ps)
        = List.map_filter paymentNumber ps"
    by (induction ps) (simp_all add: map_filter_simps split: option.splits)
  then show ?thesis by (simp add: findLastPayment_def)
qed

lemma payment_prefix_2025: "payment_prefix 2025 = ''PAY-2025-''"
  by code_simp

lemma padStart_small:
  "padStart 5 (String_of_nat 1) = ''00001''"
  "padStart 5 (String_of_nat 2) = ''00002''"
  "padStart 5 (String_of_nat 3) = ''00003''"
  by code_simp+

text \<open>
  Claim C9 as stated fails: the numbering is not scoped to a tenant. School 1 has no
  payment at all; its next payment number is \<^verbatim>\<open>PAY-2025-00001\<close> when the collection is
  empty and \<^verbatim>\<open>PAY-2025-00002\<close> once school 2 has recorded one payment.
\<close>

theorem payment_number_tenant_counterexample:
  "filter (\<lambda>p. payment_school [school_invoice 10 1, school_invoice 20 2] p = Some 1)
      [numbered_payment 20 ''PAY-2025-00001''] = []
   \<and> generatePaymentNumber \<lparr>now = 10, fullYear = 2025\<rparr> [] = ''PAY-2025-00001''
   \<and> generatePaymentNumber \<lparr>now = 10, fullYear = 2025\<rparr>
        [numbered_payment 20 ''PAY-2025-00001''] = ''PAY-2025-00002''"
proof (intro conjI)
  show "filter (\<lambda>p. payment_school [school_invoice 10 1, school_invoice 20 2] p = Some 1)
      [numbered_payment 20 ''PAY-2025-00001''] = []"
    by (simp add: payment_school_def school_invoice_def numbered_payment_def)
  show "generatePaymentNumber \<lparr>now = 10, fullYear = 2025\<rparr> [] = ''PAY-2025-00001''"
    by code_simp
  show "generatePaymentNumber \<lparr>now = 10, fullYear = 2025\<rparr>
        [numbered_payment 20 ''PAY-2025-00001''] = ''PAY-2025-00002''"
    by code_simp
qed

text \<open>
  Claim C9 as amended. The next payment number is computed per year over the payments of
  all tenants. It does not change when stored payments are attached to other invoices
  and students (and so to other tenants). It is the year's prefix with \<^verbatim>\<open>00001\<close> when no
  stored number carries the prefix; and when the greatest stored number with the prefix
  is the prefix followed by \<open>n\<close> padded to five digits, it is the prefix followed by
  \<open>n + 1\<close> padded to five digits, whichever tenant the stored payments belong to.
\<close>

theorem generatePaymentNumber_global:
  "generatePaymentNumber c (map (\<lambda>p. p\<lparr>pay_invoiceId := invoice_of p, pay_studentId := student_of p\<rparr>) ps)
     = generatePaymentNumber c ps
   \<and> ((\<forall>q \<in> set ps. \<forall>m. paymentNumber q = Some m \<longrightarrow>
          \<not> startsWith (payment_prefix (fullYear c)) m) \<longrightarrow>
        generatePaymentNumber c ps = payment_prefix (fullYear c) @ ''00001'')
   \<and> ((\<exists>p \<in> set ps. paymentNumber p =
            Some (payment_prefix (fullYear c) @ padStart 5 (String_of_nat n))) \<and>
        (\<forall>q \<in> set ps. \<forall>m. paymentNumber q = Some m \<and>
            startsWith (payment_prefix (fullYear c)) m \<longrightarrow>
            m \<le> payment_prefix (fullYear c) @ padStart 5 (String_of_nat n)) \<longrightarrow>
        generatePaymentNumber c ps =
          payment_prefix (fullYear c) @ padStart 5 (String_of_nat (n + 1)))"
proof (intro conjI impI)
  show "generatePaymentNumber c (map (\<lambda>p. p\<lparr>pay_invoiceId := invoice_of p, pay_studentId := student_of p\<rparr>) ps)
     = generatePaymentNumber c ps"
    by (simp add: generatePaymentNumber_def findLastPayment_reassigned)
next
  assume "\<forall>q \<in> set ps. \<forall>m. paymentNumber q = Some m \<longrightarrow>
          \<not> startsWith (payment_prefix (fullYear c)) m"
  then have "findLastPayment (payment_prefix (fullYear c)) ps = None"
    by (rule findLastPayment_none)
  moreover have "padStart 5 (String_of_nat 1) = ''00001''"
    by code_simp
  ultimately show "generatePaymentNumber c ps = payment_prefix (fullYear c) @ ''00001''"
    by (simp add: generatePaymentNumber_def nextNumber_def Let_def)
next
  let ?last = "payment_prefix (fullYear c) @ padStart 5 (String_of_nat n)"
  assume a: "(\<exists>p \<in> set ps. paymentNumber p = Some ?last) \<and>
        (\<forall>q \<in> set ps. \<forall>m. paymentNumber q = Some m \<and>
            startsWith (payment_prefix (fullYear c)) m \<longrightarrow> m \<le> ?last)"
  have "findLastPayment (payment_prefix (fullYear c)) ps = Some ?last"
    using a by (intro findLastPayment_greatest startsWith_prefix) blast+
  then show "generatePaymentNumber c ps =
          payment_prefix (fullYear c) @ padStart 5 (String_of_nat (n + 1))"
    by (simp add: generatePaymentNumber_def Let_def nextNumber_payment_number)
qed

theorem generatePaymentNumber_global_witness:
  "(\<exists>p \<in> set [numbered_payment 10 ''PAY-2025-00001'', numbered_payment 20 ''PAY-2025-00002''].
      paymentNumber p = Some ''PAY-2025-00002'')
   \<and> payment_school [school_invoice 10 1, school_invoice 20 2]
        (numbered_payment 20 ''PAY-2025-00002'') = Some 2
   \<and> generatePaymentNumber \<lparr>now = 10, fullYear = 2025\<rparr>
        [numbered_payment 10 ''PAY-2025-00001'', numbered_payment 20 ''PAY-2025-00002'']
      = ''PAY-2025-00003''"
proof -
  let ?c = "\<lparr>now = 10, fullYear = 2025\<rparr>"
  let ?ps = "[numbered_payment 10 ''PAY-2025-00001'', numbered_payment 20 ''PAY-2025-00002'']"
  have h1: "\<exists>p \<in> set ?ps. paymentNumber p =
              Some (payment_prefix (fullYear ?c) @ padStart 5 (String_of_nat 2))"
    by (simp add: payment_prefix_2025 padStart_small numbered_payment_def)
  have h2: "\<forall>q \<in> set ?ps. \<forall>m. paymentNumber q = Some m \<and>
              startsWith (payment_prefix (fullYear ?c)) m \<longrightarrow>
              m \<le> payment_prefix (fullYear ?c) @ padStart 5 (String_of_nat 2)"
    by (simp add: payment_prefix_2025 padStart_small numbered_payment_def)
  have "generatePaymentNumber ?c ?ps
          = payment_prefix (fullYear ?c) @ padStart 5 (String_of_nat (2 + 1))"
    using generatePaymentNumber_global [of ?c _ _ ?ps 2] h1 h2 by blast
  then have g: "generatePaymentNumber ?c ?ps = ''PAY-2025-00003''"
    by (simp add: payment_prefix_2025 padStart_small)
  have e: "\<exists>p \<in> set ?ps. paymentNumber p = Some ''PAY-2025-00002''"
    by (simp add: numbered_payment_def)
  have s: "payment_school [school_invoice 10 1, school_invoice 20 2]
        (numbered_payment 20 ''PAY-2025-00002'') = Some 2"
    by (simp add: payment_school_def school_invoice_def numbered_payment_def)
  show ?thesis
    using e s g by blast
qed


end
